theory Spec2Isabelle
  imports Main
begin

section \<open>Values of the platform\<close>

text \<open>
  A JavaScript string is a sequence of UTF-16 code units; a code unit is modelled as a
  natural number (below 65536 in every real string). All literals of the source are ASCII.
\<close>

type_synonym jsstring = "nat list"

definition js :: "string \<Rightarrow> jsstring" where
  "js s = map of_char s"

text \<open>\<^verbatim>\<open>String.prototype.trim\<close>: strips the WhiteSpace and LineTerminator code points
  of ECMAScript from both ends.\<close>

definition isWhiteSpace :: "nat \<Rightarrow> bool" where
  "isWhiteSpace c \<longleftrightarrow>
     c = 9 \<or> c = 10 \<or> c = 11 \<or> c = 12 \<or> c = 13 \<or> c = 32 \<or> c = 160 \<or> c = 5760 \<or>
     (8192 \<le> c \<and> c \<le> 8202) \<or> c = 8232 \<or> c = 8233 \<or> c = 8239 \<or> c = 8287 \<or>
     c = 12288 \<or> c = 65279"

definition trim :: "jsstring \<Rightarrow> jsstring" where
  "trim t = rev (dropWhile isWhiteSpace (rev (dropWhile isWhiteSpace t)))"

text \<open>\<^verbatim>\<open>Array.prototype.join\<close> on an array of strings.\<close>

fun join :: "jsstring \<Rightarrow> jsstring list \<Rightarrow> jsstring" where
  "join sep [] = []"
| "join sep [x] = x"
| "join sep (x # y # ys) = x @ sep @ join sep (y # ys)"

text \<open>\<^verbatim>\<open>Date.now()\<close> is a count of milliseconds, a natural number here;
  \<^verbatim>\<open>Number.prototype.toString\<close> renders it in decimal.\<close>

fun toString :: "nat \<Rightarrow> jsstring" where
  "toString n = (if n < 10 then [48 + n] else toString (n div 10) @ [48 + n mod 10])"

declare toString.simps [simp del]

text \<open>The inverse reading of a decimal numeral, used only to show that \<open>toString\<close>
  is injective.\<close>

definition fromDigits :: "jsstring \<Rightarrow> nat" where
  "fromDigits ds = foldl (\<lambda>acc d. acc * 10 + (d - 48)) 0 ds"

text \<open>A \<^verbatim>\<open>Blob\<close> is a byte sequence with a media type. \<^verbatim>\<open>new Blob(parts, {type})\<close>
  concatenates the bytes of its parts in order; the media type is kept as it is given.\<close>

record Blob =
  blob_bytes :: "nat list"
  blob_type :: jsstring

definition blob_size :: "Blob \<Rightarrow> nat" where
  "blob_size b = length (blob_bytes b)"

definition new_Blob :: "Blob list \<Rightarrow> jsstring \<Rightarrow> Blob" where
  "new_Blob parts ty = \<lparr>blob_bytes = concat (map blob_bytes parts), blob_type = ty\<rparr>"

section \<open>Data model (src/types.ts)\<close>

datatype AppState = IDLE | RECORDING | PAUSED | PROCESSING | ERROR

record TranscriptSegment =
  seg_id :: jsstring
  seg_text :: jsstring
  seg_timestamp :: nat

datatype Role = user | ai

record ChatMessage =
  msg_id :: jsstring
  msg_role :: Role
  msg_text :: jsstring
  msg_timestamp :: nat

section \<open>The remote language service (src/services/geminiService.ts)\<close>

text \<open>
  What the body of a service function meets before it looks at the response:
  \<open>Throws\<close> when \<^verbatim>\<open>blobToBase64\<close> or \<^verbatim>\<open>generateContent\<close> rejects, otherwise
  \<open>Returns t\<close> where \<open>t\<close> is \<^verbatim>\<open>response.text\<close> (\<open>None\<close> when undefined).
  The prompt sent to the service does not influence what the functions do with the
  response and is not modelled.
\<close>

datatype remote = Throws | Returns "jsstring option"

datatype error = RemoteFailure | NoTranscriptionGenerated

definition transcribeAudioToUrdu :: "remote \<Rightarrow> error + jsstring" where
  "transcribeAudioToUrdu r =
     (case r of
        Throws \<Rightarrow> Inl RemoteFailure
      | Returns None \<Rightarrow> Inl NoTranscriptionGenerated
      | Returns (Some t) \<Rightarrow> if t = [] then Inl NoTranscriptionGenerated else Inr (trim t))"

definition summarizeUrduContent :: "remote \<Rightarrow> error + jsstring" where
  "summarizeUrduContent r =
     (case r of
        Throws \<Rightarrow> Inl RemoteFailure
      | Returns None \<Rightarrow> Inr (js ''Could not generate summary.'')
      | Returns (Some t) \<Rightarrow>
          if t = [] then Inr (js ''Could not generate summary.'') else Inr (trim t))"

definition chatWithTranscript :: "remote \<Rightarrow> error + jsstring" where
  "chatWithTranscript r =
     (case r of
        Throws \<Rightarrow> Inl RemoteFailure
      | Returns None \<Rightarrow> Inr (js ''I could not generate an answer.'')
      | Returns (Some t) \<Rightarrow>
          if t = [] then Inr (js ''I could not generate an answer.'') else Inr t)"

section \<open>The component state (src/App.tsx)\<close>

text \<open>
  \<^verbatim>\<open>MediaRecorder\<close> objects live in a heap (\<open>recorders\<close>), since a recorder that the
  component no longer refers to still fires its events. \<open>onstop = None\<close> is the
  \<^verbatim>\<open>null\<close> handler; the only handler the source installs resolves the promise of
  \<^verbatim>\<open>stopAndProcess\<close>. \<open>stop_queued\<close> is the task that \<^verbatim>\<open>stop()\<close> queues: it fires
  \<^verbatim>\<open>dataavailable\<close> and then \<^verbatim>\<open>stop\<close>.
\<close>

datatype RecordingState = inactive | recording | paused

datatype StopHandler = ResolvePromise

record MediaRecorder =
  rec_state :: RecordingState
  onstop :: "StopHandler option"
  mimeType :: jsstring
  rec_stream :: nat
  stop_queued :: bool

text \<open>
  The first block of fields is the React state and the refs of \<^verbatim>\<open>App\<close>. \<open>recorders\<close>
  and \<open>streams\<close> are the platform objects created so far (a stream is \<open>True\<close> while its
  tracks are live). The last block counts the asynchronous operations in flight and logs
  the arguments of every call of the three service functions.
\<close>

record state =
  appState :: AppState
  segments :: "TranscriptSegment list"
  summary :: "jsstring option"
  errorMsg :: "jsstring option"
  isChatOpen :: bool
  chatMessages :: "ChatMessage list"
  chatInput :: jsstring
  isChatLoading :: bool
  mediaRecorderRef :: "nat option"
  audioChunksRef :: "Blob list"
  streamRef :: "nat option"
  recorders :: "MediaRecorder list"
  streams :: "bool list"
  userMediaPending :: nat
  restartTimers :: nat
  transcribeCalls :: "Blob list"
  transcribePending :: nat
  summarizeCalls :: "jsstring list list"
  summarizePending :: nat
  chatCalls :: "(jsstring \<times> jsstring) list"
  chatPending :: nat

definition init :: state where
  "init = \<lparr>appState = IDLE, segments = [], summary = None, errorMsg = None,
     isChatOpen = False, chatMessages = [], chatInput = [], isChatLoading = False,
     mediaRecorderRef = None, audioChunksRef = [], streamRef = None,
     recorders = [], streams = [], userMediaPending = 0, restartTimers = 0,
     transcribeCalls = [], transcribePending = 0, summarizeCalls = [],
     summarizePending = 0, chatCalls = [], chatPending = 0\<rparr>"

section \<open>Platform operations on recorders and streams\<close>

text \<open>\<^verbatim>\<open>mediaRecorderRef.current\<close>, as an index into the heap; a reference that points
  outside the heap (there is none in a reachable state) reads as \<^verbatim>\<open>null\<close>.\<close>

definition current :: "state \<Rightarrow> nat option" where
  "current s =
     (case mediaRecorderRef s of
        None \<Rightarrow> None
      | Some r \<Rightarrow> if r < length (recorders s) then Some r else None)"

definition update_recorder :: "nat \<Rightarrow> (MediaRecorder \<Rightarrow> MediaRecorder) \<Rightarrow> state \<Rightarrow> state" where
  "update_recorder r f s = s\<lparr>recorders := (recorders s)[r := f (recorders s ! r)]\<rparr>"

text \<open>\<^verbatim>\<open>MediaRecorder.stop()\<close>: nothing on an inactive recorder; otherwise the recorder
  becomes inactive and the task firing \<^verbatim>\<open>dataavailable\<close> and \<^verbatim>\<open>stop\<close> is queued.\<close>

definition inactivate :: "MediaRecorder \<Rightarrow> MediaRecorder" where
  "inactivate m = m\<lparr>rec_state := inactive, stop_queued := True\<rparr>"

definition rec_stop :: "nat \<Rightarrow> state \<Rightarrow> state" where
  "rec_stop r s =
     (if rec_state (recorders s ! r) = inactive then s else update_recorder r inactivate s)"

text \<open>\<^verbatim>\<open>stream.getTracks().forEach(track => track.stop())\<close>: the tracks of the stream
  end, and a recorder still capturing from it is stopped by the platform.\<close>

definition stopTracks :: "nat \<Rightarrow> state \<Rightarrow> state" where
  "stopTracks i s =
     s\<lparr>streams := (streams s)[i := False],
       recorders := map (\<lambda>m. if rec_stream m = i \<and> rec_state m \<noteq> inactive
                               then inactivate m else m) (recorders s)\<rparr>"

section \<open>The handlers of App\<close>

text \<open>The cleanup of the unmount effect.\<close>

definition unmount :: "state \<Rightarrow> state" where
  "unmount s = (case streamRef s of None \<Rightarrow> s | Some i \<Rightarrow> stopTracks i s)"

text \<open>\<^verbatim>\<open>initRecording\<close> up to its \<^verbatim>\<open>await\<close>, and its two continuations. The platform
  tells whether \<^verbatim>\<open>audio/webm;codecs=opus\<close> (\<open>opus\<close>) and \<^verbatim>\<open>audio/mp4\<close> (\<open>mp4\<close>) are
  supported; the constructor of \<^verbatim>\<open>MediaRecorder\<close> throws on an unsupported type, which
  the \<^verbatim>\<open>catch\<close> block receives like a rejected acquisition.\<close>

definition initRecording :: "state \<Rightarrow> state" where
  "initRecording s =
     (let s1 = s\<lparr>errorMsg := None\<rparr>;
          s2 = (case streamRef s1 of None \<Rightarrow> s1 | Some i \<Rightarrow> stopTracks i s1)
      in s2\<lparr>userMediaPending := Suc (userMediaPending s2)\<rparr>)"

definition initRecording_catch :: "state \<Rightarrow> state" where
  "initRecording_catch s =
     s\<lparr>errorMsg := Some (js ''Could not access microphone.''), appState := ERROR\<rparr>"

definition initRecording_rejected :: "state \<Rightarrow> state" where
  "initRecording_rejected s =
     initRecording_catch (s\<lparr>userMediaPending := userMediaPending s - 1\<rparr>)"

definition initRecording_fulfilled :: "bool \<Rightarrow> bool \<Rightarrow> state \<Rightarrow> state" where
  "initRecording_fulfilled opus mp4 s =
     (let s1 = s\<lparr>userMediaPending := userMediaPending s - 1,
                 streams := streams s @ [True],
                 streamRef := Some (length (streams s))\<rparr>;
          ty = (if opus then js ''audio/webm;codecs=opus'' else js ''audio/mp4'')
      in if \<not> opus \<and> \<not> mp4 then initRecording_catch s1
         else s1\<lparr>recorders := recorders s1 @
                    [\<lparr>rec_state = recording, onstop = None, mimeType = ty,
                      rec_stream = length (streams s), stop_queued = False\<rparr>],
                 mediaRecorderRef := Some (length (recorders s1)),
                 audioChunksRef := [],
                 appState := RECORDING\<rparr>)"

text \<open>The \<^verbatim>\<open>ondataavailable\<close> handler that \<^verbatim>\<open>initRecording\<close> installs on every
  recorder.\<close>

definition ondataavailable :: "Blob \<Rightarrow> state \<Rightarrow> state" where
  "ondataavailable d s =
     (if blob_size d > 0 then s\<lparr>audioChunksRef := audioChunksRef s @ [d]\<rparr> else s)"

definition pauseRecording :: "state \<Rightarrow> state" where
  "pauseRecording s =
     (case current s of
        None \<Rightarrow> s
      | Some r \<Rightarrow>
          if rec_state (recorders s ! r) = recording
          then (update_recorder r (\<lambda>m. m\<lparr>rec_state := paused\<rparr>) s)\<lparr>appState := PAUSED\<rparr>
          else s)"

definition resumeRecording :: "state \<Rightarrow> state" where
  "resumeRecording s =
     (case current s of
        None \<Rightarrow> s
      | Some r \<Rightarrow>
          if rec_state (recorders s ! r) = paused
          then (update_recorder r (\<lambda>m. m\<lparr>rec_state := recording\<rparr>) s)\<lparr>appState := RECORDING\<rparr>
          else s)"

definition cancelRecording :: "state \<Rightarrow> state" where
  "cancelRecording s =
     (case current s of
        None \<Rightarrow> s
      | Some r \<Rightarrow>
          (rec_stop r (update_recorder r (\<lambda>m. m\<lparr>onstop := None\<rparr>) s))
            \<lparr>audioChunksRef := [], appState := IDLE\<rparr>)"

definition restartRecording :: "state \<Rightarrow> state" where
  "restartRecording s =
     (let s1 = (case current s of
                  None \<Rightarrow> s
                | Some r \<Rightarrow>
                    (rec_stop r (update_recorder r (\<lambda>m. m\<lparr>onstop := None\<rparr>) s))
                      \<lparr>audioChunksRef := []\<rparr>)
      in s1\<lparr>appState := IDLE, restartTimers := Suc (restartTimers s1)\<rparr>)"

definition stopAndProcess :: "state \<Rightarrow> state" where
  "stopAndProcess s =
     (case current s of
        None \<Rightarrow> s
      | Some r \<Rightarrow>
          (rec_stop r (update_recorder r (\<lambda>m. m\<lparr>onstop := Some ResolvePromise\<rparr>) s))
            \<lparr>appState := PROCESSING\<rparr>)"

text \<open>\<^verbatim>\<open>processAudio\<close> up to its \<^verbatim>\<open>await\<close>: the call of \<^verbatim>\<open>transcribeAudioToUrdu\<close>
  is logged. Its continuation receives what the call gave, and the two readings of the
  clock that build the segment.\<close>

definition processAudio :: "Blob \<Rightarrow> state \<Rightarrow> state" where
  "processAudio b s =
     s\<lparr>errorMsg := None,
       transcribeCalls := transcribeCalls s @ [b],
       transcribePending := Suc (transcribePending s)\<rparr>"

definition processAudio_settled :: "error + jsstring \<Rightarrow> nat \<Rightarrow> nat \<Rightarrow> state \<Rightarrow> state" where
  "processAudio_settled res now1 now2 s =
     (let s1 = s\<lparr>transcribePending := transcribePending s - 1\<rparr>
      in case res of
           Inr t \<Rightarrow>
             s1\<lparr>segments := segments s1 @
                   [\<lparr>seg_id = toString now1, seg_text = t, seg_timestamp = now2\<rparr>],
                appState := IDLE\<rparr>
         | Inl e \<Rightarrow>
             s1\<lparr>errorMsg :=
                   Some (js ''Transcription failed. Please try again or check file format.''),
                appState := IDLE\<rparr>)"

text \<open>In \<^verbatim>\<open>stopAndProcess\<close> the executor of the promise runs at once and finds the
  recorder that the guard before it has found, so its \<^verbatim>\<open>else\<close> branch is never taken.
  The callback that runs once the promise is resolved:
  \<open>then_mimeType\<close> is its local \<^verbatim>\<open>mimeType\<close>, \<open>audioBlob\<close> its local
  \<^verbatim>\<open>audioBlob\<close>.\<close>

definition then_mimeType :: "state \<Rightarrow> jsstring" where
  "then_mimeType s =
     (case current s of
        None \<Rightarrow> js ''audio/webm''
      | Some r \<Rightarrow>
          if mimeType (recorders s ! r) = [] then js ''audio/webm''
          else mimeType (recorders s ! r))"

definition audioBlob :: "state \<Rightarrow> Blob" where
  "audioBlob s = new_Blob (audioChunksRef s) (then_mimeType s)"

definition stopAndProcess_then :: "state \<Rightarrow> state" where
  "stopAndProcess_then s = processAudio (audioBlob s) s"

text \<open>\<open>file\<close> is \<^verbatim>\<open>event.target.files?.[0]\<close>.\<close>

definition handleFileUpload :: "Blob option \<Rightarrow> state \<Rightarrow> state" where
  "handleFileUpload file s =
     (case file of
        None \<Rightarrow> s
      | Some f \<Rightarrow>
          if blob_size f > 500 * 1024 * 1024
          then s\<lparr>errorMsg := Some (js ''File too large. Max 500MB allowed.'')\<rparr>
          else processAudio f (s\<lparr>appState := PROCESSING\<rparr>))"

definition handleSummarize :: "state \<Rightarrow> state" where
  "handleSummarize s =
     (if segments s = [] then s
      else s\<lparr>appState := PROCESSING,
             summarizeCalls := summarizeCalls s @ [map seg_text (segments s)],
             summarizePending := Suc (summarizePending s)\<rparr>)"

definition handleSummarize_settled :: "error + jsstring \<Rightarrow> state \<Rightarrow> state" where
  "handleSummarize_settled res s =
     (let s1 = s\<lparr>summarizePending := summarizePending s - 1\<rparr>
      in case res of
           Inr t \<Rightarrow> s1\<lparr>summary := Some t, appState := IDLE\<rparr>
         | Inl e \<Rightarrow> s1\<lparr>errorMsg := Some (js ''Summarization failed.''), appState := IDLE\<rparr>)"

definition handleDeleteSegment :: "jsstring \<Rightarrow> state \<Rightarrow> state" where
  "handleDeleteSegment i s = s\<lparr>segments := filter (\<lambda>x. seg_id x \<noteq> i) (segments s)\<rparr>"

text \<open>A value of type \<^verbatim>\<open>string | null\<close> is truthy when it is a non-empty string.\<close>

definition truthy :: "jsstring option \<Rightarrow> bool" where
  "truthy v = (case v of None \<Rightarrow> False | Some t \<Rightarrow> t \<noteq> [])"

definition chatContext :: "state \<Rightarrow> jsstring" where
  "chatContext s =
     (let allText = join [10] (map seg_text (segments s))
      in case summary s of
           None \<Rightarrow> allText
         | Some t \<Rightarrow>
             if t = [] then allText
             else js ''Summary: '' @ t @ [10, 10] @ js ''Transcripts:'' @ [10] @ allText)"

definition handleSendMessage :: "nat \<Rightarrow> nat \<Rightarrow> state \<Rightarrow> state" where
  "handleSendMessage now1 now2 s =
     (if trim (chatInput s) = [] \<or> isChatLoading s then s
      else s\<lparr>chatMessages := chatMessages s @
                [\<lparr>msg_id = toString now1, msg_role = user, msg_text = chatInput s,
                  msg_timestamp = now2\<rparr>],
             chatInput := [],
             isChatLoading := True,
             chatCalls := chatCalls s @ [(chatContext s, chatInput s)],
             chatPending := Suc (chatPending s)\<rparr>)"

definition handleSendMessage_settled :: "error + jsstring \<Rightarrow> nat \<Rightarrow> nat \<Rightarrow> state \<Rightarrow> state" where
  "handleSendMessage_settled res now1 now2 s =
     s\<lparr>chatPending := chatPending s - 1,
       chatMessages := chatMessages s @
         [\<lparr>msg_id = toString (now1 + 1), msg_role = ai,
           msg_text = (case res of
                         Inr t \<Rightarrow> t
                       | Inl e \<Rightarrow> js ''Sorry, I couldn't process that question right now.''),
           msg_timestamp = now2\<rparr>],
       isChatLoading := False\<rparr>"

text \<open>The inline handler of the Clear All button, after the user has confirmed.
  \<^verbatim>\<open>handleExport\<close> changes no state and is left out.\<close>

definition clearAll :: "state \<Rightarrow> state" where
  "clearAll s = s\<lparr>segments := [], summary := None, chatMessages := []\<rparr>"

section \<open>Events\<close>

text \<open>
  The component is driven by the clicks of the user and by the platform: the settling of
  a promise, the events of a recorder, the timeout of Restart. The settling events carry
  what the platform supplies: the support flags of the two media types, the outcome of the
  remote call, the readings of \<^verbatim>\<open>Date.now()\<close>.
\<close>

datatype event =
    ClickStart
  | UserMediaFulfilled bool bool
  | UserMediaRejected
  | ClickPause
  | ClickResume
  | ClickCancel
  | ClickRestart
  | RestartTimeout
  | ClickFinish
  | DataAvailable nat Blob
  | Stopped nat
  | FileChosen "Blob option"
  | TranscribeSettled remote nat nat
  | ClickSummarize
  | SummarizeSettled remote
  | ClickDelete jsstring
  | DismissSummary
  | ClickClearAll
  | OpenChat
  | CloseChat
  | ChatInputChanged jsstring
  | SubmitChat nat nat
  | ChatSettled remote nat nat

definition isProcessing :: "state \<Rightarrow> bool" where
  "isProcessing s \<longleftrightarrow> appState s = PROCESSING"

definition isRecording :: "state \<Rightarrow> bool" where
  "isRecording s \<longleftrightarrow> appState s = RECORDING"

definition isPaused :: "state \<Rightarrow> bool" where
  "isPaused s \<longleftrightarrow> appState s = PAUSED"

definition hasContent :: "state \<Rightarrow> bool" where
  "hasContent s \<longleftrightarrow> segments s \<noteq> [] \<or> truthy (summary s)"

text \<open>
  A click is possible when the JSX of \<^verbatim>\<open>App\<close> renders the control (and does not
  disable it); an event of the platform is possible when the operation it belongs to is
  in flight. A recorder delivers data while it captures or while its stop task is queued,
  and fires \<^verbatim>\<open>stop\<close> when that task runs.
\<close>

fun enabled :: "event \<Rightarrow> state \<Rightarrow> bool" where
  "enabled ClickStart s \<longleftrightarrow> \<not> isRecording s \<and> \<not> isPaused s \<and> \<not> isProcessing s"
| "enabled (UserMediaFulfilled opus mp4) s \<longleftrightarrow> 0 < userMediaPending s"
| "enabled UserMediaRejected s \<longleftrightarrow> 0 < userMediaPending s"
| "enabled ClickPause s \<longleftrightarrow> isRecording s"
| "enabled ClickResume s \<longleftrightarrow> \<not> isRecording s \<and> isPaused s"
| "enabled ClickCancel s \<longleftrightarrow> isRecording s \<or> isPaused s"
| "enabled ClickRestart s \<longleftrightarrow> isRecording s \<or> isPaused s"
| "enabled RestartTimeout s \<longleftrightarrow> 0 < restartTimers s"
| "enabled ClickFinish s \<longleftrightarrow> isRecording s \<or> isPaused s"
| "enabled (DataAvailable r d) s \<longleftrightarrow>
     r < length (recorders s) \<and>
     (rec_state (recorders s ! r) \<noteq> inactive \<or> stop_queued (recorders s ! r))"
| "enabled (Stopped r) s \<longleftrightarrow> r < length (recorders s) \<and> stop_queued (recorders s ! r)"
| "enabled (FileChosen file) s \<longleftrightarrow> \<not> isRecording s \<and> \<not> isPaused s \<and> \<not> isProcessing s"
| "enabled (TranscribeSettled res now1 now2) s \<longleftrightarrow> 0 < transcribePending s"
| "enabled ClickSummarize s \<longleftrightarrow>
     hasContent s \<and> \<not> isRecording s \<and> \<not> isPaused s \<and> \<not> isProcessing s"
| "enabled (SummarizeSettled res) s \<longleftrightarrow> 0 < summarizePending s"
| "enabled (ClickDelete i) s \<longleftrightarrow> i \<in> set (map seg_id (segments s))"
| "enabled DismissSummary s \<longleftrightarrow> truthy (summary s)"
| "enabled ClickClearAll s \<longleftrightarrow> hasContent s"
| "enabled OpenChat s \<longleftrightarrow>
     hasContent s \<and> \<not> isRecording s \<and> \<not> isPaused s \<and> \<not> isProcessing s"
| "enabled CloseChat s \<longleftrightarrow> isChatOpen s"
| "enabled (ChatInputChanged t) s \<longleftrightarrow> isChatOpen s"
| "enabled (SubmitChat now1 now2) s \<longleftrightarrow> isChatOpen s"
| "enabled (ChatSettled res now1 now2) s \<longleftrightarrow> 0 < chatPending s"

text \<open>What an event runs. The \<^verbatim>\<open>stop\<close> event of a recorder runs its \<^verbatim>\<open>onstop\<close>
  handler, if one is installed; resolving the promise runs the callback of
  \<^verbatim>\<open>stopAndProcess\<close>.\<close>

fun fire :: "event \<Rightarrow> state \<Rightarrow> state" where
  "fire ClickStart s = initRecording s"
| "fire (UserMediaFulfilled opus mp4) s = initRecording_fulfilled opus mp4 s"
| "fire UserMediaRejected s = initRecording_rejected s"
| "fire ClickPause s = pauseRecording s"
| "fire ClickResume s = resumeRecording s"
| "fire ClickCancel s = cancelRecording s"
| "fire ClickRestart s = restartRecording s"
| "fire RestartTimeout s = initRecording (s\<lparr>restartTimers := restartTimers s - 1\<rparr>)"
| "fire ClickFinish s = stopAndProcess s"
| "fire (DataAvailable r d) s = ondataavailable d s"
| "fire (Stopped r) s =
     (let s1 = update_recorder r (\<lambda>m. m\<lparr>stop_queued := False\<rparr>) s
      in case onstop (recorders s ! r) of
           None \<Rightarrow> s1
         | Some ResolvePromise \<Rightarrow> stopAndProcess_then s1)"
| "fire (FileChosen file) s = handleFileUpload file s"
| "fire (TranscribeSettled res now1 now2) s =
     processAudio_settled (transcribeAudioToUrdu res) now1 now2 s"
| "fire ClickSummarize s = handleSummarize s"
| "fire (SummarizeSettled res) s = handleSummarize_settled (summarizeUrduContent res) s"
| "fire (ClickDelete i) s = handleDeleteSegment i s"
| "fire DismissSummary s = s\<lparr>summary := None\<rparr>"
| "fire ClickClearAll s = clearAll s"
| "fire OpenChat s = s\<lparr>isChatOpen := True\<rparr>"
| "fire CloseChat s = s\<lparr>isChatOpen := False\<rparr>"
| "fire (ChatInputChanged t) s = s\<lparr>chatInput := t\<rparr>"
| "fire (SubmitChat now1 now2) s = handleSendMessage now1 now2 s"
| "fire (ChatSettled res now1 now2) s =
     handleSendMessage_settled (chatWithTranscript res) now1 now2 s"

definition step :: "event \<Rightarrow> state \<Rightarrow> state option" where
  "step e s = (if enabled e s then Some (fire e s) else None)"

fun run :: "event list \<Rightarrow> state \<Rightarrow> state option" where
  "run [] s = Some s"
| "run (e # es) s = (case step e s of None \<Rightarrow> None | Some s' \<Rightarrow> run es s')"

definition reachable :: "state \<Rightarrow> bool" where
  "reachable s \<longleftrightarrow> (\<exists>es. run es init = Some s)"

text \<open>The chunks that a sequence of events delivers, in order.\<close>

fun delivered :: "event list \<Rightarrow> Blob list" where
  "delivered [] = []"
| "delivered (DataAvailable r d # es) = d # delivered es"
| "delivered (e # es) = delivered es"

text \<open>The events of one recording by recorder \<open>r\<close> before it is stopped: pausing,
  resuming and the delivery of a chunk by \<open>r\<close>.\<close>

fun recording_event :: "nat \<Rightarrow> event \<Rightarrow> bool" where
  "recording_event r ClickPause = True"
| "recording_event r ClickResume = True"
| "recording_event r (DataAvailable r' d) = (r' = r)"
| "recording_event r e = False"

text \<open>The sequences of one recording by recorder \<open>r\<close> that the controls allow: Pause while
  capturing, Resume while paused (\<open>p\<close> tells whether the recording is paused), and the
  delivery of a chunk by \<open>r\<close> at any moment.\<close>

fun session :: "nat \<Rightarrow> bool \<Rightarrow> event list \<Rightarrow> bool" where
  "session r p [] = True"
| "session r p (ClickPause # es) = (\<not> p \<and> session r True es)"
| "session r p (ClickResume # es) = (p \<and> session r False es)"
| "session r p (DataAvailable r' d # es) = (r' = r \<and> session r p es)"
| "session r p (e # es) = False"

text \<open>What the events of a recording leave alone: the reference to the recorder, the media
  types and \<^verbatim>\<open>onstop\<close> handlers of all recorders, the transcription calls and the
  segments.\<close>

definition session_frame :: "state \<Rightarrow> state \<Rightarrow> bool" where
  "session_frame s s' \<longleftrightarrow>
     mediaRecorderRef s' = mediaRecorderRef s \<and>
     map mimeType (recorders s') = map mimeType (recorders s) \<and>
     map onstop (recorders s') = map onstop (recorders s) \<and>
     transcribeCalls s' = transcribeCalls s \<and>
     transcribePending s' = transcribePending s \<and>
     segments s' = segments s"

section \<open>Evaluation and framing lemmas\<close>

lemmas handler_defs =
  initRecording_def initRecording_catch_def initRecording_rejected_def
  initRecording_fulfilled_def ondataavailable_def pauseRecording_def resumeRecording_def
  cancelRecording_def restartRecording_def stopAndProcess_def processAudio_def
  processAudio_settled_def stopAndProcess_then_def audioBlob_def then_mimeType_def
  handleFileUpload_def handleSummarize_def
  handleSummarize_settled_def handleDeleteSegment_def handleSendMessage_def
  handleSendMessage_settled_def clearAll_def update_recorder_def rec_stop_def stopTracks_def

lemmas eval_defs =
  init_def step_def handler_defs current_def inactivate_def isRecording_def isPaused_def
  isProcessing_def hasContent_def truthy_def blob_size_def new_Blob_def js_def Let_def
  transcribeAudioToUrdu_def summarizeUrduContent_def chatWithTranscript_def trim_def
  isWhiteSpace_def unmount_def

lemma run_append: "run (es @ fs) s = (case run es s of None \<Rightarrow> None | Some s' \<Rightarrow> run fs s')"
  by (induction es arbitrary: s) (auto split: option.splits)

lemma step_SomeD: "step e s = Some s' \<Longrightarrow> enabled e s \<and> s' = fire e s"
  by (auto simp: step_def split: if_splits)

lemma run_invariant:
  assumes "run es s = Some s'" and "P s"
    and "\<And>e s. enabled e s \<Longrightarrow> P s \<Longrightarrow> P (fire e s)"
  shows "P s'"
  using assms(1,2)
proof (induction es arbitrary: s)
  case Nil
  then show ?case by simp
next
  case (Cons e es)
  from Cons.prems(1) obtain s1 where s1: "step e s = Some s1" and r: "run es s1 = Some s'"
    by (auto split: option.splits)
  from s1 Cons.prems(2) assms(3) have "P s1"
    by (auto dest: step_SomeD)
  with Cons.IH r show ?case by blast
qed

lemma map_update_same:
  "(i < length xs \<longrightarrow> f y = f (xs ! i)) \<Longrightarrow> map f (xs[i := y]) = map f xs"
  by (cases "i < length xs") (simp_all add: map_update list_update_same_conv list_update_beyond)

lemma recording_fire:
  "recording_event r e \<Longrightarrow>
   session_frame s (fire e s) \<and>
   audioChunksRef (fire e s) = audioChunksRef s @ filter (\<lambda>c. 0 < blob_size c) (delivered [e])"
  by (cases e)
    (auto simp: session_frame_def pauseRecording_def resumeRecording_def ondataavailable_def
      update_recorder_def map_update_same split: option.splits)

lemma session_frame_refl: "session_frame s s"
  by (simp add: session_frame_def)

lemma session_frame_trans: "session_frame s t \<Longrightarrow> session_frame t u \<Longrightarrow> session_frame s u"
  by (simp add: session_frame_def)

lemma delivered_append: "delivered (es @ fs) = delivered es @ delivered fs"
  by (induction es rule: delivered.induct) simp_all

lemma delivered_map: "delivered (map (DataAvailable r) ds) = ds"
  by (induction ds) simp_all

lemma recording_run:
  "run es s = Some s' \<Longrightarrow> \<forall>e\<in>set es. recording_event r e \<Longrightarrow>
   session_frame s s' \<and>
   audioChunksRef s' = audioChunksRef s @ filter (\<lambda>c. 0 < blob_size c) (delivered es)"
proof (induction es arbitrary: s)
  case Nil
  then show ?case by (simp add: session_frame_refl)
next
  case (Cons e es)
  from Cons.prems(1) obtain s1 where s1: "step e s = Some s1" and r: "run es s1 = Some s'"
    by (auto split: option.splits)
  from step_SomeD [OF s1] have f: "s1 = fire e s" by simp
  from Cons.prems(2) have e: "recording_event r e" and es: "\<forall>e\<in>set es. recording_event r e"
    by simp_all
  from recording_fire [OF e, of s] f
  have 1: "session_frame s s1"
    and 2: "audioChunksRef s1 = audioChunksRef s @ filter (\<lambda>c. 0 < blob_size c) (delivered [e])"
    by simp_all
  from Cons.IH [OF r es]
  have 3: "session_frame s1 s'"
    and 4: "audioChunksRef s' = audioChunksRef s1 @ filter (\<lambda>c. 0 < blob_size c) (delivered es)"
    by simp_all
  have "delivered (e # es) = delivered [e] @ delivered es"
    using delivered_append [of "[e]" es] by simp
  with 1 2 3 4 show ?case
    by (simp add: session_frame_trans)
qed


lemma finish_frame:
  "current s = Some r \<Longrightarrow>
   mediaRecorderRef (stopAndProcess s) = Some r \<and>
   length (recorders (stopAndProcess s)) = length (recorders s) \<and>
   map mimeType (recorders (stopAndProcess s)) = map mimeType (recorders s) \<and>
   onstop (recorders (stopAndProcess s) ! r) = Some ResolvePromise \<and>
   transcribeCalls (stopAndProcess s) = transcribeCalls s \<and>
   audioChunksRef (stopAndProcess s) = audioChunksRef s"
  by (auto simp: stopAndProcess_def current_def rec_stop_def update_recorder_def inactivate_def
      map_update_same split: option.splits if_splits)

lemma fulfilled_frame:
  "opus \<or> mp4 \<Longrightarrow> s0 = initRecording_fulfilled opus mp4 s \<Longrightarrow>
   current s0 = Some (length (recorders s)) \<and>
   mimeType (recorders s0 ! length (recorders s)) =
     (if opus then js ''audio/webm;codecs=opus'' else js ''audio/mp4'') \<and>
   audioChunksRef s0 = [] \<and> transcribeCalls s0 = transcribeCalls s"
  by (auto simp: initRecording_fulfilled_def current_def Let_def)

lemma frame_current: "session_frame s s' \<Longrightarrow> current s' = current s"
  by (auto simp: session_frame_def current_def split: option.splits dest: arg_cong [where f = length])

lemma frame_mimeType:
  "session_frame s s' \<Longrightarrow> r < length (recorders s) \<Longrightarrow>
   mimeType (recorders s' ! r) = mimeType (recorders s ! r)"
  by (metis length_map nth_map session_frame_def)

lemma frame_onstop:
  "session_frame s s' \<Longrightarrow> r < length (recorders s) \<Longrightarrow>
   onstop (recorders s' ! r) = onstop (recorders s ! r)"
  by (metis length_map nth_map session_frame_def)

lemma then_calls:
  "transcribeCalls (stopAndProcess_then s) = transcribeCalls s @ [audioBlob s]"
  by (simp add: stopAndProcess_then_def processAudio_def)

lemma concat_filter_size:
  "concat (map blob_bytes (filter (\<lambda>c. 0 < blob_size c) cs)) = concat (map blob_bytes cs)"
  by (induction cs) (simp_all add: blob_size_def)


lemma current_less: "current s = Some r \<Longrightarrow> r < length (recorders s)"
  by (auto simp: current_def split: option.splits if_splits)

lemma unqueue_frame:
  "current (update_recorder r (\<lambda>m. m\<lparr>stop_queued := False\<rparr>) s) = current s \<and>
   map mimeType (recorders (update_recorder r (\<lambda>m. m\<lparr>stop_queued := False\<rparr>) s)) =
     map mimeType (recorders s) \<and>
   audioChunksRef (update_recorder r (\<lambda>m. m\<lparr>stop_queued := False\<rparr>) s) = audioChunksRef s \<and>
   transcribeCalls (update_recorder r (\<lambda>m. m\<lparr>stop_queued := False\<rparr>) s) = transcribeCalls s \<and>
   segments (update_recorder r (\<lambda>m. m\<lparr>stop_queued := False\<rparr>) s) = segments s"
  by (auto simp: update_recorder_def current_def map_update_same split: option.splits)

lemma js_nonempty: "js (c # cs) \<noteq> []"
  by (simp add: js_def)

section \<open>Stop-and-finalize\<close>

lemma finalize_calls:
  assumes sup: "opus \<or> mp4"
    and ev: "\<forall>e\<in>set es. recording_event (length (recorders s)) e"
    and r1: "run es (initRecording_fulfilled opus mp4 s) = Some s1"
    and r2: "step ClickFinish s1 = Some s2"
    and r3: "run (map (DataAvailable (length (recorders s))) ds) s2 = Some s3"
    and r4: "step (Stopped (length (recorders s))) s3 = Some s4"
  shows "transcribeCalls s3 = transcribeCalls s \<and>
         transcribeCalls s4 = transcribeCalls s @
           [new_Blob (filter (\<lambda>c. 0 < blob_size c) (delivered es @ ds))
              (if opus then js ''audio/webm;codecs=opus'' else js ''audio/mp4'')] \<and>
         blob_bytes (last (transcribeCalls s4)) = concat (map blob_bytes (delivered es @ ds))"
proof -
  define r where "r = length (recorders s)"
  define s0 where "s0 = initRecording_fulfilled opus mp4 s"
  define ty where "ty = (if opus then js ''audio/webm;codecs=opus'' else js ''audio/mp4'')"
  have ty: "ty \<noteq> []"
    by (simp add: ty_def js_def)
  from fulfilled_frame [OF sup s0_def]
  have c0: "current s0 = Some r" and m0: "mimeType (recorders s0 ! r) = ty"
    and b0: "audioChunksRef s0 = []" and t0: "transcribeCalls s0 = transcribeCalls s"
    by (simp_all add: r_def ty_def)
  from recording_run [OF r1 [folded s0_def] ev]
  have f1: "session_frame s0 s1"
    and b1: "audioChunksRef s1 = filter (\<lambda>c. 0 < blob_size c) (delivered es)"
    by (simp_all add: b0)
  from f1 c0 have c1: "current s1 = Some r"
    by (simp add: frame_current)
  from f1 c0 m0 have m1: "mimeType (recorders s1 ! r) = ty"
    by (simp add: frame_mimeType current_less)
  from step_SomeD [OF r2] have s2: "s2 = stopAndProcess s1"
    by simp
  from finish_frame [OF c1] s2
  have c2: "mediaRecorderRef s2 = Some r" and l2: "length (recorders s2) = length (recorders s1)"
    and mm2: "map mimeType (recorders s2) = map mimeType (recorders s1)"
    and o2: "onstop (recorders s2 ! r) = Some ResolvePromise"
    and t2: "transcribeCalls s2 = transcribeCalls s1" and b2: "audioChunksRef s2 = audioChunksRef s1"
    by simp_all
  from c1 l2 have r2l: "r < length (recorders s2)"
    by (simp add: current_less)
  with c2 have cur2: "current s2 = Some r"
    by (simp add: current_def)
  from mm2 r2l l2 m1 have m2: "mimeType (recorders s2 ! r) = ty"
    by (metis length_map nth_map)
  have "\<forall>e\<in>set (map (DataAvailable r) ds). recording_event r e"
    by simp
  from recording_run [OF r3 [folded r_def] this]
  have f3: "session_frame s2 s3"
    and b3: "audioChunksRef s3 = audioChunksRef s2 @ filter (\<lambda>c. 0 < blob_size c) ds"
    by (simp_all add: delivered_map)
  from f3 cur2 have c3: "current s3 = Some r"
    by (simp add: frame_current)
  from f3 r2l m2 have m3: "mimeType (recorders s3 ! r) = ty"
    by (simp add: frame_mimeType)
  from f3 r2l o2 have o3: "onstop (recorders s3 ! r) = Some ResolvePromise"
    by (simp add: frame_onstop)
  from f1 f3 t0 t2 have t3: "transcribeCalls s3 = transcribeCalls s"
    by (simp add: session_frame_def)
  define s3' where "s3' = update_recorder r (\<lambda>m. m\<lparr>stop_queued := False\<rparr>) s3"
  from step_SomeD [OF r4] o3 have s4: "s4 = stopAndProcess_then s3'"
    by (simp add: r_def [symmetric] s3'_def)
  from unqueue_frame [of r s3] c3
  have c3': "current s3' = Some r"
    and mm3': "map mimeType (recorders s3') = map mimeType (recorders s3)"
    and b3': "audioChunksRef s3' = audioChunksRef s3" and t3': "transcribeCalls s3' = transcribeCalls s3"
    by (simp_all add: s3'_def)
  from c3 c3' mm3' m3 have m3': "mimeType (recorders s3' ! r) = ty"
    by (metis current_less length_map nth_map)
  have t4: "transcribeCalls s4 = transcribeCalls s @
      [new_Blob (filter (\<lambda>c. 0 < blob_size c) (delivered es @ ds)) ty]"
    by (simp add: s4 then_calls audioBlob_def then_mimeType_def c3' m3' ty b3' b3 b2 b1 t3' t3)
  have "blob_bytes (last (transcribeCalls s4)) = concat (map blob_bytes (delivered es @ ds))"
    unfolding t4 by (simp only: last_snoc new_Blob_def Blob.simps concat_filter_size)
  with t3 t4 show ?thesis
    by (simp add: ty_def)
qed


lemma session_events: "session r p es \<Longrightarrow> \<forall>e\<in>set es. recording_event r e"
  by (induction r p es rule: session.induct) simp_all

lemma capturing_pause:
  assumes "current s = Some r" and "appState s = RECORDING"
    and "rec_state (recorders s ! r) = recording"
  shows "current (pauseRecording s) = Some r \<and> appState (pauseRecording s) = PAUSED \<and>
         rec_state (recorders (pauseRecording s) ! r) = paused"
  using assms
  by (auto simp: pauseRecording_def current_def update_recorder_def split: option.splits if_splits)

lemma capturing_resume:
  assumes "current s = Some r" and "appState s = PAUSED"
    and "rec_state (recorders s ! r) = paused"
  shows "current (resumeRecording s) = Some r \<and> appState (resumeRecording s) = RECORDING \<and>
         rec_state (recorders (resumeRecording s) ! r) = recording"
  using assms
  by (auto simp: resumeRecording_def current_def update_recorder_def split: option.splits if_splits)

lemma capturing_data:
  "current (ondataavailable d s) = current s \<and> appState (ondataavailable d s) = appState s \<and>
   recorders (ondataavailable d s) = recorders s"
  by (auto simp: ondataavailable_def current_def split: option.splits)

lemma session_runs:
  assumes "session r p es" and "current s = Some r"
    and "if p then appState s = PAUSED \<and> rec_state (recorders s ! r) = paused
         else appState s = RECORDING \<and> rec_state (recorders s ! r) = recording"
  shows "\<exists>s'. run es s = Some s' \<and> current s' = Some r \<and>
           (appState s' = RECORDING \<or> appState s' = PAUSED) \<and>
           rec_state (recorders s' ! r) \<noteq> inactive"
  using assms
proof (induction r p es arbitrary: s rule: session.induct)
  case (1 r p)
  then show ?case
    by (auto split: if_splits)
next
  case (2 r p es)
  from "2.prems" have np: "\<not> p" and rest: "session r True es"
    by simp_all
  from np "2.prems"(2,3) have "appState s = RECORDING" and "rec_state (recorders s ! r) = recording"
    by simp_all
  with capturing_pause [OF "2.prems"(2)]
  have en: "step ClickPause s = Some (pauseRecording s)"
    and st: "current (pauseRecording s) = Some r"
      "appState (pauseRecording s) = PAUSED \<and> rec_state (recorders (pauseRecording s) ! r) = paused"
    by (simp_all add: step_def isRecording_def)
  from "2.IH" [OF rest st(1)] st(2) en show ?case
    by simp
next
  case (3 r p es)
  from "3.prems" have p: "p" and rest: "session r False es"
    by simp_all
  from p "3.prems"(2,3) have "appState s = PAUSED" and "rec_state (recorders s ! r) = paused"
    by simp_all
  with capturing_resume [OF "3.prems"(2)]
  have en: "step ClickResume s = Some (resumeRecording s)"
    and st: "current (resumeRecording s) = Some r"
      "appState (resumeRecording s) = RECORDING \<and>
       rec_state (recorders (resumeRecording s) ! r) = recording"
    by (simp_all add: step_def isRecording_def isPaused_def)
  from "3.IH" [OF rest st(1)] st(2) en show ?case
    by simp
next
  case (4 r p r' d es)
  from "4.prems" have eq: "r' = r" and rest: "session r p es"
    by simp_all
  from "4.prems"(2,3) have act: "r < length (recorders s)" "rec_state (recorders s ! r) \<noteq> inactive"
    by (auto simp: current_less split: if_splits)
  then have en: "step (DataAvailable r' d) s = Some (ondataavailable d s)"
    by (simp add: step_def eq)
  from capturing_data [of d s] "4.prems"(2,3)
  have "current (ondataavailable d s) = Some r"
    and "if p then appState (ondataavailable d s) = PAUSED \<and>
             rec_state (recorders (ondataavailable d s) ! r) = paused
         else appState (ondataavailable d s) = RECORDING \<and>
             rec_state (recorders (ondataavailable d s) ! r) = recording"
    by simp_all
  from "4.IH" [OF rest this] en show ?case
    by simp
qed simp_all

lemma finish_queues:
  assumes "current s = Some r" and "appState s = RECORDING \<or> appState s = PAUSED"
    and "rec_state (recorders s ! r) \<noteq> inactive"
  shows "step ClickFinish s = Some (stopAndProcess s) \<and>
         r < length (recorders (stopAndProcess s)) \<and>
         stop_queued (recorders (stopAndProcess s) ! r) \<and>
         appState (stopAndProcess s) = PROCESSING"
  using assms
  by (auto simp: step_def isRecording_def isPaused_def stopAndProcess_def current_def rec_stop_def
      update_recorder_def inactivate_def split: option.splits if_splits)

lemma deliveries_run:
  assumes "r < length (recorders s)" and "stop_queued (recorders s ! r)"
  shows "\<exists>s'. run (map (DataAvailable r) ds) s = Some s' \<and> recorders s' = recorders s \<and>
           appState s' = appState s"
  using assms
proof (induction ds arbitrary: s)
  case Nil
  then show ?case by simp
next
  case (Cons d ds)
  then have en: "step (DataAvailable r d) s = Some (ondataavailable d s)"
    by (simp add: step_def)
  from capturing_data [of d s] Cons.prems
  have "r < length (recorders (ondataavailable d s))"
    and "stop_queued (recorders (ondataavailable d s) ! r)"
    by simp_all
  from Cons.IH [OF this] en capturing_data [of d s] show ?case
    by simp
qed


lemma run_single: "run [e] s = step e s"
  by (simp split: option.splits)

lemma fulfilled_capturing:
  "opus \<or> mp4 \<Longrightarrow>
   appState (initRecording_fulfilled opus mp4 s) = RECORDING \<and>
   rec_state (recorders (initRecording_fulfilled opus mp4 s) ! length (recorders s)) = recording"
  by (auto simp: initRecording_fulfilled_def Let_def)

text \<open>
  Claim C1. A recording starts when the acquisition of \<^verbatim>\<open>initRecording\<close> succeeds and
  creates the recorder \<open>r\<close>. Take any sequence of Pause, Resume and chunk deliveries of \<open>r\<close>
  that the controls allow (it may end paused), then the click on Finish, then the chunks
  that \<open>r\<close> still delivers. All of this runs, Finish queues the stop of \<open>r\<close>, and the
  \<^verbatim>\<open>stop\<close> event of \<open>r\<close> (the stop-completion signal) fires. Up to the state in which
  the signal fires no audio object has been handed to transcription; the signal hands over
  exactly one, built from the delivered chunks of non-zero size in delivery order, and its
  bytes are the bytes of all delivered chunks in delivery order: no chunk is omitted or
  duplicated.
\<close>

theorem finalize_assembles_delivered_chunks:
  assumes sup: "opus \<or> mp4"
    and ses: "session (length (recorders s)) False es"
  shows "\<exists>s1 s3 s4.
     run es (initRecording_fulfilled opus mp4 s) = Some s1 \<and>
     run (ClickFinish # map (DataAvailable (length (recorders s))) ds) s1 = Some s3 \<and>
     step (Stopped (length (recorders s))) s3 = Some s4 \<and>
     transcribeCalls s1 = transcribeCalls s \<and>
     transcribeCalls s3 = transcribeCalls s \<and>
     transcribeCalls s4 = transcribeCalls s @
       [new_Blob (filter (\<lambda>c. 0 < blob_size c) (delivered es @ ds))
          (if opus then js ''audio/webm;codecs=opus'' else js ''audio/mp4'')] \<and>
     blob_bytes (last (transcribeCalls s4)) = concat (map blob_bytes (delivered es @ ds))"
proof -
  define r where "r = length (recorders s)"
  define s0 where "s0 = initRecording_fulfilled opus mp4 s"
  from fulfilled_frame [OF sup s0_def] have c0: "current s0 = Some r"
    and t0: "transcribeCalls s0 = transcribeCalls s"
    by (simp_all add: r_def)
  from fulfilled_capturing [OF sup, of s]
  have "if False then appState s0 = PAUSED \<and> rec_state (recorders s0 ! r) = paused
        else appState s0 = RECORDING \<and> rec_state (recorders s0 ! r) = recording"
    by (simp add: s0_def r_def)
  from session_runs [OF ses [folded r_def] c0 this]
  obtain s1 where r1: "run es s0 = Some s1" and c1: "current s1 = Some r"
    and p1: "appState s1 = RECORDING \<or> appState s1 = PAUSED"
    and a1: "rec_state (recorders s1 ! r) \<noteq> inactive"
    by blast
  from session_events [OF ses] have ev: "\<forall>e\<in>set es. recording_event (length (recorders s)) e" .
  from recording_run [OF r1 ev] t0 have t1: "transcribeCalls s1 = transcribeCalls s"
    by (simp add: session_frame_def)
  define s2 where "s2 = stopAndProcess s1"
  from finish_queues [OF c1 p1 a1]
  have r2: "step ClickFinish s1 = Some s2" and l2: "r < length (recorders s2)"
    and q2: "stop_queued (recorders s2 ! r)"
    by (simp_all add: s2_def)
  from deliveries_run [OF l2 q2, of ds]
  obtain s3 where r3: "run (map (DataAvailable r) ds) s2 = Some s3"
    and k3: "recorders s3 = recorders s2"
    by blast
  from l2 q2 k3 have r4: "step (Stopped r) s3 = Some (fire (Stopped r) s3)"
    by (simp add: step_def)
  from r2 r3 have r23: "run (ClickFinish # map (DataAvailable r) ds) s1 = Some s3"
    by simp
  note calls = finalize_calls
    [OF sup ev r1 [unfolded s0_def] r2 r3 [unfolded r_def] r4 [unfolded r_def]]
  from r1 r23 r4 t1 calls show ?thesis
    unfolding s0_def r_def by blast
qed

theorem finalize_assembles_delivered_chunks_witness:
  "transcribeCalls
     (the (run [DataAvailable 0 \<lparr>blob_bytes = [1, 2], blob_type = []\<rparr>, ClickPause, ClickResume,
                DataAvailable 0 \<lparr>blob_bytes = [], blob_type = []\<rparr>, ClickPause, ClickFinish,
                DataAvailable 0 \<lparr>blob_bytes = [3], blob_type = []\<rparr>, Stopped 0]
             (initRecording_fulfilled True False (initRecording init)))) =
     [\<lparr>blob_bytes = [1, 2, 3], blob_type = js ''audio/webm;codecs=opus''\<rparr>]"
proof -
  define pre where "pre = initRecording init"
  define es where "es = [DataAvailable 0 \<lparr>blob_bytes = [1, 2], blob_type = []\<rparr>, ClickPause,
    ClickResume, DataAvailable 0 \<lparr>blob_bytes = [], blob_type = []\<rparr>, ClickPause]"
  define ds where "ds = [\<lparr>blob_bytes = [3], blob_type = []\<rparr>]"
  have l: "length (recorders pre) = 0" and t: "transcribeCalls pre = []"
    by (simp_all add: pre_def eval_defs)
  have ses: "session (length (recorders pre)) False es"
    by (simp add: l es_def)
  have sup: "True \<or> False"
    by simp
  from finalize_assembles_delivered_chunks [OF sup ses, of ds]
  obtain s1 s3 s4 where r1: "run es (initRecording_fulfilled True False pre) = Some s1"
    and r3: "run (ClickFinish # map (DataAvailable 0) ds) s1 = Some s3"
    and r4: "step (Stopped 0) s3 = Some s4"
    and c: "transcribeCalls s4 = transcribeCalls pre @
      [new_Blob (filter (\<lambda>c. 0 < blob_size c) (delivered es @ ds)) (js ''audio/webm;codecs=opus'')]"
    unfolding l by auto
  have "run (es @ (ClickFinish # map (DataAvailable 0) ds) @ [Stopped 0])
      (initRecording_fulfilled True False pre) = Some s4"
    by (simp only: run_append run_single r1 r3 r4 option.case)
  then have "the (run (es @ (ClickFinish # map (DataAvailable 0) ds) @ [Stopped 0])
      (initRecording_fulfilled True False pre)) = s4"
    by simp
  moreover from c t have "transcribeCalls s4 =
      [\<lparr>blob_bytes = [1, 2, 3], blob_type = js ''audio/webm;codecs=opus''\<rparr>]"
    by (simp add: es_def ds_def new_Blob_def blob_size_def)
  ultimately show ?thesis
    by (simp add: es_def ds_def pre_def)
qed

section \<open>Invariants of the reachable states\<close>

lemma reachable_invariant:
  assumes "reachable s" and "P init"
    and "\<And>e s. enabled e s \<Longrightarrow> P s \<Longrightarrow> P (fire e s)"
  shows "P s"
proof -
  from assms(1) obtain es where "run es init = Some s"
    by (auto simp: reachable_def)
  from run_invariant [of es init s P, OF this assms(2)] assms(3) show ?thesis
    by blast
qed

lemma reachable_run: "run es init = Some s \<Longrightarrow> reachable s"
  by (auto simp: reachable_def)

lemma chunks_fire:
  "\<forall>c\<in>set (audioChunksRef s). 0 < blob_size c \<Longrightarrow>
   \<forall>c\<in>set (audioChunksRef (fire e s)). 0 < blob_size c"
  by (cases e) (auto simp: handler_defs Let_def split: option.splits sum.splits StopHandler.splits)

lemma phase_current_fire:
  "(appState s = RECORDING \<or> appState s = PAUSED \<longrightarrow> current s \<noteq> None) \<Longrightarrow>
   (appState (fire e s) = RECORDING \<or> appState (fire e s) = PAUSED \<longrightarrow> current (fire e s) \<noteq> None)"
  by (cases e) (auto simp: handler_defs current_def Let_def split: option.splits sum.splits StopHandler.splits if_splits)

lemma chat_fire:
  "enabled e s \<Longrightarrow> chatPending s = (if isChatLoading s then 1 else 0) \<Longrightarrow>
   chatPending (fire e s) = (if isChatLoading (fire e s) then 1 else 0)"
  by (cases e) (auto simp: handler_defs Let_def split: option.splits sum.splits StopHandler.splits if_splits)

lemma stream_fire:
  "(\<forall>i. streamRef s = Some i \<longrightarrow> i < length (streams s)) \<Longrightarrow>
   (\<forall>i. streamRef (fire e s) = Some i \<longrightarrow> i < length (streams (fire e s)))"
  by (cases e) (auto simp: handler_defs Let_def split: option.splits sum.splits StopHandler.splits if_splits)

lemma norecorder_fire:
  "enabled e s \<Longrightarrow> (mediaRecorderRef s = None \<longrightarrow> recorders s = [] \<and> audioChunksRef s = []) \<Longrightarrow>
   (mediaRecorderRef (fire e s) = None \<longrightarrow> recorders (fire e s) = [] \<and> audioChunksRef (fire e s) = [])"
  by (cases e) (auto simp: handler_defs current_def Let_def split: option.splits sum.splits StopHandler.splits if_splits)

lemma reachable_chunks: "reachable s \<Longrightarrow> \<forall>c\<in>set (audioChunksRef s). 0 < blob_size c"
  by (rule reachable_invariant [where P = "\<lambda>s. \<forall>c\<in>set (audioChunksRef s). 0 < blob_size c"])
    (simp_all add: init_def chunks_fire)

lemma reachable_current:
  "reachable s \<Longrightarrow> appState s = RECORDING \<or> appState s = PAUSED \<Longrightarrow> current s \<noteq> None"
  using reachable_invariant
    [where P = "\<lambda>s. appState s = RECORDING \<or> appState s = PAUSED \<longrightarrow> current s \<noteq> None" and s = s]
    phase_current_fire
  by (simp add: init_def)

lemma reachable_chat: "reachable s \<Longrightarrow> chatPending s = (if isChatLoading s then 1 else 0)"
  by (rule reachable_invariant [where P = "\<lambda>s. chatPending s = (if isChatLoading s then 1 else 0)"])
    (simp_all add: init_def chat_fire)

lemma reachable_stream: "reachable s \<Longrightarrow> streamRef s = Some i \<Longrightarrow> i < length (streams s)"
  using reachable_invariant
    [where P = "\<lambda>s. \<forall>i. streamRef s = Some i \<longrightarrow> i < length (streams s)" and s = s]
    stream_fire
  by (simp add: init_def)

lemma reachable_norecorder:
  "reachable s \<Longrightarrow> mediaRecorderRef s = None \<Longrightarrow> recorders s = [] \<and> audioChunksRef s = []"
  using reachable_invariant
    [where P = "\<lambda>s. mediaRecorderRef s = None \<longrightarrow> recorders s = [] \<and> audioChunksRef s = []" and s = s]
    norecorder_fire
  by (simp add: init_def)


section \<open>The chunk buffer\<close>

text \<open>
  Claim C10. A chunk of size zero is discarded by the \<^verbatim>\<open>ondataavailable\<close> handler and a
  chunk of positive size is appended, so in every reachable state every chunk of the buffer
  has a size greater than zero; the audio object that the callback of
  \<^verbatim>\<open>stopAndProcess\<close> assembles and hands to transcription is the concatenation of
  the chunks of the buffer, none of which is empty.
\<close>

theorem buffer_holds_no_empty_chunk:
  assumes "reachable s"
  shows "(\<forall>c\<in>set (audioChunksRef s). 0 < blob_size c) \<and>
         (blob_size d = 0 \<longrightarrow> ondataavailable d s = s) \<and>
         (0 < blob_size d \<longrightarrow> audioChunksRef (ondataavailable d s) = audioChunksRef s @ [d]) \<and>
         blob_bytes (audioBlob s) = concat (map blob_bytes (audioChunksRef s)) \<and>
         transcribeCalls (stopAndProcess_then s) = transcribeCalls s @ [audioBlob s]"
  using reachable_chunks [OF assms]
  by (simp add: ondataavailable_def audioBlob_def new_Blob_def then_calls)

theorem buffer_holds_no_empty_chunk_witness:
  "audioChunksRef
     (the (run [ClickStart, UserMediaFulfilled True False,
                DataAvailable 0 \<lparr>blob_bytes = [], blob_type = []\<rparr>,
                DataAvailable 0 \<lparr>blob_bytes = [7], blob_type = []\<rparr>] init)) =
     [\<lparr>blob_bytes = [7], blob_type = []\<rparr>] \<and>
   list_all (\<lambda>c. 0 < blob_size c)
     (audioChunksRef
        (the (run [ClickStart, UserMediaFulfilled True False,
                   DataAvailable 0 \<lparr>blob_bytes = [], blob_type = []\<rparr>,
                   DataAvailable 0 \<lparr>blob_bytes = [7], blob_type = []\<rparr>] init)))"
proof -
  let ?tr = "[ClickStart, UserMediaFulfilled True False,
              DataAvailable 0 \<lparr>blob_bytes = [], blob_type = []\<rparr>,
              DataAvailable 0 \<lparr>blob_bytes = [7], blob_type = []\<rparr>]"
  have "run ?tr init \<noteq> None"
    by (simp add: eval_defs)
  then have "run ?tr init = Some (the (run ?tr init))"
    by auto
  then have "reachable (the (run ?tr init))"
    by (rule reachable_run)
  from buffer_holds_no_empty_chunk [OF this]
  have "list_all (\<lambda>c. 0 < blob_size c) (audioChunksRef (the (run ?tr init)))"
    by (simp add: list_all_iff)
  moreover have "audioChunksRef (the (run ?tr init)) = [\<lparr>blob_bytes = [7], blob_type = []\<rparr>]"
    by (simp add: eval_defs)
  ultimately show ?thesis
    by simp
qed

section \<open>Cancel and Restart\<close>

lemma cancel_frame:
  "current s = Some r \<Longrightarrow>
   appState (cancelRecording s) = IDLE \<and> audioChunksRef (cancelRecording s) = [] \<and>
   transcribeCalls (cancelRecording s) = transcribeCalls s \<and>
   transcribePending (cancelRecording s) = transcribePending s \<and>
   segments (cancelRecording s) = segments s \<and>
   length (recorders (cancelRecording s)) = length (recorders s) \<and>
   onstop (recorders (cancelRecording s) ! r) = None \<and>
   restartTimers (cancelRecording s) = restartTimers s"
  by (auto simp: cancelRecording_def current_def rec_stop_def update_recorder_def inactivate_def
      split: option.splits if_splits)

lemma restart_frame:
  "current s = Some r \<Longrightarrow>
   appState (restartRecording s) = IDLE \<and> audioChunksRef (restartRecording s) = [] \<and>
   transcribeCalls (restartRecording s) = transcribeCalls s \<and>
   transcribePending (restartRecording s) = transcribePending s \<and>
   segments (restartRecording s) = segments s \<and>
   length (recorders (restartRecording s)) = length (recorders s) \<and>
   onstop (recorders (restartRecording s) ! r) = None \<and>
   restartTimers (restartRecording s) = Suc (restartTimers s) \<and>
   userMediaPending (restartRecording s) = userMediaPending s"
  by (auto simp: restartRecording_def current_def rec_stop_def update_recorder_def inactivate_def
      Let_def split: option.splits if_splits)

lemma abandoned_tail:
  assumes len: "r < length (recorders c)" and null: "onstop (recorders c ! r) = None"
    and run: "run (map (DataAvailable r) ds @ [Stopped r]) c = Some s'"
  shows "transcribeCalls s' = transcribeCalls c \<and> transcribePending s' = transcribePending c \<and>
         segments s' = segments c"
proof -
  from run obtain m where m: "run (map (DataAvailable r) ds) c = Some m"
    and st: "step (Stopped r) m = Some s'"
    by (auto simp: run_append split: option.splits)
  have "\<forall>e\<in>set (map (DataAvailable r) ds). recording_event r e"
    by simp
  from recording_run [OF m this] have f: "session_frame c m"
    by simp
  with len null have "onstop (recorders m ! r) = None"
    by (simp add: frame_onstop)
  with step_SomeD [OF st] have "s' = update_recorder r (\<lambda>m. m\<lparr>stop_queued := False\<rparr>) m"
    by simp
  with f show ?thesis
    by (simp add: session_frame_def update_recorder_def)
qed

text \<open>
  Claim C6. In a reachable state whose phase is Recording or Paused the component refers
  to a recorder \<open>r\<close>. Cancel and Restart both set the phase to Idle and empty the chunk
  buffer; neither calls the transcription operation, puts a call in flight or adds a
  segment, and the same holds after the chunks and the \<^verbatim>\<open>stop\<close> event that the stopped
  recorder \<open>r\<close> still fires, since its \<^verbatim>\<open>onstop\<close> handler has been removed. Restart in
  addition arms its timeout, whose expiry runs \<^verbatim>\<open>initRecording\<close> again and puts an
  acquisition in flight.
\<close>

theorem cancel_and_restart_bypass_transcription:
  assumes "reachable s" and "appState s = RECORDING \<or> appState s = PAUSED"
  shows "\<exists>r. current s = Some r \<and>
     appState (cancelRecording s) = IDLE \<and> audioChunksRef (cancelRecording s) = [] \<and>
     transcribeCalls (cancelRecording s) = transcribeCalls s \<and>
     transcribePending (cancelRecording s) = transcribePending s \<and>
     segments (cancelRecording s) = segments s \<and>
     restartTimers (cancelRecording s) = restartTimers s \<and>
     appState (restartRecording s) = IDLE \<and> audioChunksRef (restartRecording s) = [] \<and>
     transcribeCalls (restartRecording s) = transcribeCalls s \<and>
     transcribePending (restartRecording s) = transcribePending s \<and>
     segments (restartRecording s) = segments s \<and>
     restartTimers (restartRecording s) = Suc (restartTimers s) \<and>
     enabled RestartTimeout (restartRecording s) \<and>
     userMediaPending (fire RestartTimeout (restartRecording s)) = Suc (userMediaPending s) \<and>
     (\<forall>c ds s'. (c = cancelRecording s \<or> c = restartRecording s) \<longrightarrow>
        run (map (DataAvailable r) ds @ [Stopped r]) c = Some s' \<longrightarrow>
        transcribeCalls s' = transcribeCalls s \<and> transcribePending s' = transcribePending s \<and>
        segments s' = segments s)"
proof -
  from reachable_current [OF assms] obtain r where r: "current s = Some r"
    by auto
  note c = cancel_frame [OF r] and t = restart_frame [OF r]
  have pend: "userMediaPending (fire RestartTimeout (restartRecording s)) = Suc (userMediaPending s)"
    using t by (simp add: initRecording_def stopTracks_def Let_def split: option.splits)
  have tail: "transcribeCalls s' = transcribeCalls s \<and> transcribePending s' = transcribePending s \<and>
      segments s' = segments s"
    if "c = cancelRecording s \<or> c = restartRecording s"
      and "run (map (DataAvailable r) ds @ [Stopped r]) c = Some s'" for c ds s'
  proof -
    from that(1) c t current_less [OF r]
    have "r < length (recorders c)" and "onstop (recorders c ! r) = None"
      and "transcribeCalls c = transcribeCalls s" and "transcribePending c = transcribePending s"
      and "segments c = segments s"
      by auto
    with abandoned_tail [OF this(1,2) that(2)] show ?thesis
      by simp
  qed
  from r c t pend
  have "current s = Some r \<and>
     appState (cancelRecording s) = IDLE \<and> audioChunksRef (cancelRecording s) = [] \<and>
     transcribeCalls (cancelRecording s) = transcribeCalls s \<and>
     transcribePending (cancelRecording s) = transcribePending s \<and>
     segments (cancelRecording s) = segments s \<and>
     restartTimers (cancelRecording s) = restartTimers s \<and>
     appState (restartRecording s) = IDLE \<and> audioChunksRef (restartRecording s) = [] \<and>
     transcribeCalls (restartRecording s) = transcribeCalls s \<and>
     transcribePending (restartRecording s) = transcribePending s \<and>
     segments (restartRecording s) = segments s \<and>
     restartTimers (restartRecording s) = Suc (restartTimers s) \<and>
     enabled RestartTimeout (restartRecording s) \<and>
     userMediaPending (fire RestartTimeout (restartRecording s)) = Suc (userMediaPending s)"
    by simp
  with tail show ?thesis
    by (intro exI [of _ r]) blast
qed


theorem cancel_and_restart_bypass_transcription_witness:
  "appState (the (run [ClickStart, UserMediaFulfilled True False, ClickCancel] init)) = IDLE \<and>
   transcribeCalls
     (the (run [ClickStart, UserMediaFulfilled True False, ClickCancel,
                DataAvailable 0 \<lparr>blob_bytes = [7], blob_type = []\<rparr>, Stopped 0] init)) = [] \<and>
   segments
     (the (run [ClickStart, UserMediaFulfilled True False, ClickRestart,
                DataAvailable 0 \<lparr>blob_bytes = [7], blob_type = []\<rparr>, Stopped 0] init)) = []"
proof -
  let ?tr = "[ClickStart, UserMediaFulfilled True False]"
  let ?tail = "map (DataAvailable 0) [\<lparr>blob_bytes = [7], blob_type = []\<rparr>] @ [Stopped 0]"
  let ?rec = "the (run ?tr init)"
  have "run ?tr init \<noteq> None"
    by (simp add: eval_defs)
  then have "run ?tr init = Some ?rec"
    by auto
  then have reach: "reachable ?rec"
    by (rule reachable_run)
  have phase: "appState ?rec = RECORDING \<or> appState ?rec = PAUSED"
    by (simp add: eval_defs)
  have cur: "current ?rec = Some 0"
    by (simp add: eval_defs)
  have none: "transcribeCalls ?rec = []" "segments ?rec = []"
    by (simp_all add: eval_defs)
  have "run ?tail (cancelRecording ?rec) \<noteq> None"
    by (simp add: eval_defs)
  then have rc: "run ?tail (cancelRecording ?rec) = Some (the (run ?tail (cancelRecording ?rec)))"
    by auto
  have "run ?tail (restartRecording ?rec) \<noteq> None"
    by (simp add: eval_defs)
  then have rr: "run ?tail (restartRecording ?rec) = Some (the (run ?tail (restartRecording ?rec)))"
    by auto
  from cancel_and_restart_bypass_transcription [OF reach phase] cur
  have idle: "appState (cancelRecording ?rec) = IDLE"
    and tail: "\<And>c ds s'. c = cancelRecording ?rec \<or> c = restartRecording ?rec \<Longrightarrow>
      run (map (DataAvailable 0) ds @ [Stopped 0]) c = Some s' \<Longrightarrow>
      transcribeCalls s' = transcribeCalls ?rec \<and> segments s' = segments ?rec"
    by auto
  from tail [OF _ rc] none
  have 1: "transcribeCalls (the (run ?tail (cancelRecording ?rec))) = []"
    by simp
  from tail [OF _ rr] none
  have 2: "segments (the (run ?tail (restartRecording ?rec))) = []"
    by simp
  have e0: "the (run (?tr @ [ClickCancel]) init) = cancelRecording ?rec"
    by (simp add: eval_defs)
  have e1: "the (run (?tr @ ClickCancel # ?tail) init) = the (run ?tail (cancelRecording ?rec))"
    by (simp add: eval_defs)
  have e2: "the (run (?tr @ ClickRestart # ?tail) init) = the (run ?tail (restartRecording ?rec))"
    by (simp add: eval_defs)
  from idle 1 2 e0 e1 e2 show ?thesis
    by simp
qed

section \<open>When the chunk buffer is emptied\<close>

text \<open>
  Claim C2, as stated, fails: after Start, Finish, the delivery of one chunk, the
  \<^verbatim>\<open>stop\<close> event and a successful transcription the phase is Idle and the buffer
  still holds the chunk. Nothing on the finalize path assigns to \<^verbatim>\<open>audioChunksRef\<close>.
\<close>

theorem buffer_not_cleared_by_finalize:
  "run [ClickStart, UserMediaFulfilled True False, ClickFinish,
        DataAvailable 0 \<lparr>blob_bytes = [7], blob_type = []\<rparr>, Stopped 0,
        TranscribeSettled (Returns (Some (js ''salam''))) 5 5] init \<noteq> None \<and>
   appState
     (the (run [ClickStart, UserMediaFulfilled True False, ClickFinish,
                DataAvailable 0 \<lparr>blob_bytes = [7], blob_type = []\<rparr>, Stopped 0,
                TranscribeSettled (Returns (Some (js ''salam''))) 5 5] init)) = IDLE \<and>
   audioChunksRef
     (the (run [ClickStart, UserMediaFulfilled True False, ClickFinish,
                DataAvailable 0 \<lparr>blob_bytes = [7], blob_type = []\<rparr>, Stopped 0,
                TranscribeSettled (Returns (Some (js ''salam''))) 5 5] init)) =
     [\<lparr>blob_bytes = [7], blob_type = []\<rparr>]"
  by (simp add: eval_defs)

text \<open>
  Claim C2, amended. In a reachable state, Cancel and Restart from Recording or Paused
  empty the buffer and set the phase to Idle. A Start empties the buffer at the moment its
  recorder is created, that is when the acquisition succeeds and one of the two media
  types is supported; the synchronous part of a Start, a rejected acquisition and an
  acquisition after which the recorder cannot be created (neither media type supported,
  phase Error) leave the buffer as it is. \<^verbatim>\<open>stopAndProcess\<close>, its callback and the
  completion of a transcription leave the buffer as it is; and the buffer is empty as long
  as no recorder has been created.
\<close>

theorem buffer_emptied_by_cancel_restart_start:
  assumes "reachable s"
  shows "(appState s = RECORDING \<or> appState s = PAUSED \<longrightarrow>
            audioChunksRef (cancelRecording s) = [] \<and> appState (cancelRecording s) = IDLE \<and>
            audioChunksRef (restartRecording s) = [] \<and> appState (restartRecording s) = IDLE) \<and>
         (opus \<or> mp4 \<longrightarrow> audioChunksRef (initRecording_fulfilled opus mp4 s) = []) \<and>
         (\<not> opus \<and> \<not> mp4 \<longrightarrow>
            audioChunksRef (initRecording_fulfilled opus mp4 s) = audioChunksRef s \<and>
            appState (initRecording_fulfilled opus mp4 s) = ERROR) \<and>
         audioChunksRef (initRecording s) = audioChunksRef s \<and>
         audioChunksRef (initRecording_rejected s) = audioChunksRef s \<and>
         audioChunksRef (stopAndProcess s) = audioChunksRef s \<and>
         audioChunksRef (stopAndProcess_then s) = audioChunksRef s \<and>
         audioChunksRef (processAudio_settled res now1 now2 s) = audioChunksRef s \<and>
         (mediaRecorderRef s = None \<longrightarrow> audioChunksRef s = [])"
proof -
  have "audioChunksRef (cancelRecording s) = [] \<and> appState (cancelRecording s) = IDLE \<and>
      audioChunksRef (restartRecording s) = [] \<and> appState (restartRecording s) = IDLE"
    if "appState s = RECORDING \<or> appState s = PAUSED"
  proof -
    from reachable_current [OF assms that] obtain r where r: "current s = Some r"
      by auto
    from cancel_frame [OF r] restart_frame [OF r] show ?thesis
      by simp
  qed
  moreover have "audioChunksRef (initRecording_fulfilled opus mp4 s) = []" if "opus \<or> mp4"
    using that by (auto simp: initRecording_fulfilled_def Let_def)
  moreover have "audioChunksRef (initRecording_fulfilled opus mp4 s) = audioChunksRef s \<and>
      appState (initRecording_fulfilled opus mp4 s) = ERROR" if "\<not> opus \<and> \<not> mp4"
    using that by (simp add: initRecording_fulfilled_def initRecording_catch_def Let_def)
  moreover have "audioChunksRef (initRecording s) = audioChunksRef s"
    by (simp add: initRecording_def stopTracks_def Let_def split: option.splits)
  moreover have "audioChunksRef (initRecording_rejected s) = audioChunksRef s"
    by (simp add: initRecording_rejected_def initRecording_catch_def)
  moreover have "audioChunksRef (stopAndProcess s) = audioChunksRef s"
    by (simp add: stopAndProcess_def rec_stop_def update_recorder_def split: option.splits)
  moreover have "audioChunksRef (stopAndProcess_then s) = audioChunksRef s"
    by (simp add: stopAndProcess_then_def processAudio_def)
  moreover have "audioChunksRef (processAudio_settled res now1 now2 s) = audioChunksRef s"
    by (simp add: processAudio_settled_def Let_def split: sum.splits)
  moreover have "audioChunksRef s = []" if "mediaRecorderRef s = None"
    using reachable_norecorder [OF assms that] by simp
  ultimately show ?thesis
    by blast
qed

theorem buffer_emptied_by_cancel_restart_start_witness:
  "audioChunksRef
     (the (run [ClickStart, UserMediaFulfilled True False,
                DataAvailable 0 \<lparr>blob_bytes = [7], blob_type = []\<rparr>] init)) =
     [\<lparr>blob_bytes = [7], blob_type = []\<rparr>] \<and>
   audioChunksRef
     (cancelRecording
        (the (run [ClickStart, UserMediaFulfilled True False,
                   DataAvailable 0 \<lparr>blob_bytes = [7], blob_type = []\<rparr>] init))) = [] \<and>
   audioChunksRef
     (initRecording_fulfilled True False
        (the (run [ClickStart, UserMediaFulfilled True False,
                   DataAvailable 0 \<lparr>blob_bytes = [7], blob_type = []\<rparr>] init))) = [] \<and>
   audioChunksRef
     (initRecording_fulfilled False False
        (the (run [ClickStart, UserMediaFulfilled True False,
                   DataAvailable 0 \<lparr>blob_bytes = [7], blob_type = []\<rparr>] init))) =
     [\<lparr>blob_bytes = [7], blob_type = []\<rparr>] \<and>
   audioChunksRef init = []"
proof -
  let ?tr = "[ClickStart, UserMediaFulfilled True False,
              DataAvailable 0 \<lparr>blob_bytes = [7], blob_type = []\<rparr>]"
  define c where "c = the (run ?tr init)"
  have "run ?tr init \<noteq> None"
    by (simp add: eval_defs)
  then have "run ?tr init = Some c"
    by (auto simp: c_def)
  then have reach: "reachable c"
    by (rule reachable_run)
  have phase: "appState c = RECORDING \<or> appState c = PAUSED"
    by (simp add: c_def eval_defs)
  have "run [] init = Some init"
    by simp
  then have reach0: "reachable init"
    by (rule reachable_run)
  have none: "mediaRecorderRef init = None"
    by (simp add: init_def)
  have b: "audioChunksRef c = [\<lparr>blob_bytes = [7], blob_type = []\<rparr>]"
    by (simp add: c_def eval_defs)
  from buffer_emptied_by_cancel_restart_start [OF reach, of True False] phase
  have 1: "audioChunksRef (cancelRecording c) = []"
    and 2: "audioChunksRef (initRecording_fulfilled True False c) = []"
    by blast+
  from buffer_emptied_by_cancel_restart_start [OF reach, of False False]
  have 3: "audioChunksRef (initRecording_fulfilled False False c) = audioChunksRef c"
    by blast
  from buffer_emptied_by_cancel_restart_start [OF reach0] none
  have 4: "audioChunksRef init = []"
    by blast
  from b 1 2 3 4 show ?thesis
    unfolding c_def by simp
qed

section \<open>The capture stream\<close>

text \<open>
  Claim C3, as stated, fails: after Start and Cancel, and after the stopped recorder has
  fired its last events, the phase is Idle, no acquisition is in flight, and the tracks of
  the stream that \<^verbatim>\<open>streamRef\<close> holds are still live. \<^verbatim>\<open>cancelRecording\<close> stops the
  recorder, not the stream.
\<close>

theorem stream_left_open_by_cancel:
  "run [ClickStart, UserMediaFulfilled True False, ClickCancel,
        DataAvailable 0 \<lparr>blob_bytes = [7], blob_type = []\<rparr>, Stopped 0] init \<noteq> None \<and>
   appState
     (the (run [ClickStart, UserMediaFulfilled True False, ClickCancel,
                DataAvailable 0 \<lparr>blob_bytes = [7], blob_type = []\<rparr>, Stopped 0] init)) = IDLE \<and>
   userMediaPending
     (the (run [ClickStart, UserMediaFulfilled True False, ClickCancel,
                DataAvailable 0 \<lparr>blob_bytes = [7], blob_type = []\<rparr>, Stopped 0] init)) = 0 \<and>
   streamRef
     (the (run [ClickStart, UserMediaFulfilled True False, ClickCancel,
                DataAvailable 0 \<lparr>blob_bytes = [7], blob_type = []\<rparr>, Stopped 0] init)) = Some 0 \<and>
   streams
     (the (run [ClickStart, UserMediaFulfilled True False, ClickCancel,
                DataAvailable 0 \<lparr>blob_bytes = [7], blob_type = []\<rparr>, Stopped 0] init)) = [True]"
  by (simp add: eval_defs)

lemma stopTracks_dead: "i < length (streams s) \<Longrightarrow> \<not> streams (stopTracks i s) ! i"
  by (simp add: stopTracks_def)

lemma streams_kept:
  "streams (cancelRecording s) = streams s \<and> streamRef (cancelRecording s) = streamRef s \<and>
   streams (restartRecording s) = streams s \<and> streamRef (restartRecording s) = streamRef s \<and>
   streams (stopAndProcess s) = streams s \<and> streamRef (stopAndProcess s) = streamRef s \<and>
   streams (stopAndProcess_then s) = streams s \<and> streamRef (stopAndProcess_then s) = streamRef s \<and>
   streams (processAudio_settled res now1 now2 s) = streams s \<and>
   streamRef (processAudio_settled res now1 now2 s) = streamRef s"
  by (simp add: cancelRecording_def restartRecording_def stopAndProcess_def stopAndProcess_then_def
      processAudio_def processAudio_settled_def rec_stop_def update_recorder_def Let_def
      split: option.splits sum.splits)

text \<open>
  Claim C3, amended. In a reachable state the tracks of the stream that \<^verbatim>\<open>streamRef\<close>
  holds are stopped by the cleanup at unmount and at the beginning of every
  \<^verbatim>\<open>initRecording\<close>, also the one that the timeout of Restart runs. Cancel, Restart,
  \<^verbatim>\<open>stopAndProcess\<close>, its callback and the completion of a transcription stop no
  track and keep \<^verbatim>\<open>streamRef\<close>: the stream stays open until the next Start or the
  unmount.
\<close>

theorem stream_released_by_start_and_unmount:
  assumes "reachable s"
  shows "(streamRef s = Some i \<longrightarrow>
            \<not> streams (unmount s) ! i \<and> \<not> streams (initRecording s) ! i \<and>
            \<not> streams (fire RestartTimeout s) ! i) \<and>
         streams (cancelRecording s) = streams s \<and> streamRef (cancelRecording s) = streamRef s \<and>
         streams (restartRecording s) = streams s \<and> streamRef (restartRecording s) = streamRef s \<and>
         streams (stopAndProcess s) = streams s \<and> streamRef (stopAndProcess s) = streamRef s \<and>
         streams (stopAndProcess_then s) = streams s \<and>
         streamRef (stopAndProcess_then s) = streamRef s \<and>
         streams (processAudio_settled res now1 now2 s) = streams s \<and>
         streamRef (processAudio_settled res now1 now2 s) = streamRef s"
proof -
  have "\<not> streams (unmount s) ! i \<and> \<not> streams (initRecording s) ! i \<and>
      \<not> streams (fire RestartTimeout s) ! i" if "streamRef s = Some i"
  proof -
    from reachable_stream [OF assms that] have "i < length (streams s)" .
    with that show ?thesis
      by (simp add: unmount_def initRecording_def stopTracks_def Let_def)
  qed
  with streams_kept [of s res now1 now2] show ?thesis
    by blast
qed

theorem stream_released_by_start_and_unmount_witness:
  "streams (the (run [ClickStart, UserMediaFulfilled True False, ClickCancel] init)) = [True] \<and>
   streams (unmount (the (run [ClickStart, UserMediaFulfilled True False, ClickCancel] init))) =
     [False] \<and>
   streams (initRecording (the (run [ClickStart, UserMediaFulfilled True False, ClickCancel] init))) =
     [False]"
proof -
  let ?tr = "[ClickStart, UserMediaFulfilled True False, ClickCancel]"
  define c where "c = the (run ?tr init)"
  have "run ?tr init \<noteq> None"
    by (simp add: eval_defs)
  then have "run ?tr init = Some c"
    by (auto simp: c_def)
  then have reach: "reachable c"
    by (rule reachable_run)
  have ref: "streamRef c = Some 0" and len: "length (streams c) = 1"
    and live: "streams c = [True]"
    and l1: "length (streams (unmount c)) = 1" and l2: "length (streams (initRecording c)) = 1"
    by (simp_all add: c_def eval_defs)
  from stream_released_by_start_and_unmount [OF reach, of 0] ref
  have "\<not> streams (unmount c) ! 0" and "\<not> streams (initRecording c) ! 0"
    by blast+
  with l1 l2 have "streams (unmount c) = [False]" and "streams (initRecording c) = [False]"
    by (auto simp: length_Suc_conv)
  with live show ?thesis
    by (simp add: c_def)
qed


section \<open>Summarization\<close>

text \<open>
  Claim C4, as stated, fails: on a response without text \<^verbatim>\<open>summarizeUrduContent\<close> does
  not fail, it returns the text \<^verbatim>\<open>Could not generate summary.\<close>, and
  \<^verbatim>\<open>handleSummarize\<close> stores that text as the summary without any error message.
\<close>

theorem empty_summary_response_is_stored:
  "summarizeUrduContent (Returns None) = Inr (js ''Could not generate summary.'') \<and>
   run [FileChosen (Some \<lparr>blob_bytes = [7], blob_type = js ''audio/mpeg''\<rparr>),
        TranscribeSettled (Returns (Some [1587, 1604, 1575, 1605])) 5 5,
        ClickSummarize, SummarizeSettled (Returns None)] init \<noteq> None \<and>
   summary
     (the (run [FileChosen (Some \<lparr>blob_bytes = [7], blob_type = js ''audio/mpeg''\<rparr>),
                TranscribeSettled (Returns (Some [1587, 1604, 1575, 1605])) 5 5,
                ClickSummarize, SummarizeSettled (Returns None)] init)) =
     Some (js ''Could not generate summary.'') \<and>
   errorMsg
     (the (run [FileChosen (Some \<lparr>blob_bytes = [7], blob_type = js ''audio/mpeg''\<rparr>),
                TranscribeSettled (Returns (Some [1587, 1604, 1575, 1605])) 5 5,
                ClickSummarize, SummarizeSettled (Returns None)] init)) = None"
  by (simp add: eval_defs toString.simps)

text \<open>
  Claim C4, amended. \<^verbatim>\<open>summarizeUrduContent\<close> fails exactly when the remote call
  throws; on an absent or empty response text it returns
  \<^verbatim>\<open>Could not generate summary.\<close>. When it fails, the caller surfaces
  \<^verbatim>\<open>Summarization failed.\<close>, keeps the segments and the prior summary and returns to
  Idle; when it returns a text, that text becomes the summary.
\<close>

theorem summarize_fails_on_remote_error_only:
  "(summarizeUrduContent r = Inl e \<longleftrightarrow> r = Throws \<and> e = RemoteFailure) \<and>
   (r = Returns None \<or> r = Returns (Some []) \<longrightarrow>
      summarizeUrduContent r = Inr (js ''Could not generate summary.'')) \<and>
   (summarizeUrduContent r = Inl e \<longrightarrow>
      errorMsg (fire (SummarizeSettled r) s) = Some (js ''Summarization failed.'') \<and>
      segments (fire (SummarizeSettled r) s) = segments s \<and>
      summary (fire (SummarizeSettled r) s) = summary s \<and>
      appState (fire (SummarizeSettled r) s) = IDLE) \<and>
   (summarizeUrduContent r = Inr t \<longrightarrow>
      summary (fire (SummarizeSettled r) s) = Some t \<and>
      segments (fire (SummarizeSettled r) s) = segments s \<and>
      errorMsg (fire (SummarizeSettled r) s) = errorMsg s \<and>
      appState (fire (SummarizeSettled r) s) = IDLE)"
  by (auto simp: summarizeUrduContent_def handleSummarize_settled_def Let_def
      split: remote.splits option.splits if_splits)

theorem summarize_fails_on_remote_error_only_witness:
  "summarizeUrduContent Throws = Inl RemoteFailure \<and>
   errorMsg (fire (SummarizeSettled Throws) (init\<lparr>summary := Some [1587]\<rparr>)) =
     Some (js ''Summarization failed.'') \<and>
   summary (fire (SummarizeSettled Throws) (init\<lparr>summary := Some [1587]\<rparr>)) = Some [1587] \<and>
   summary (fire (SummarizeSettled (Returns (Some []))) (init\<lparr>summary := Some [1587]\<rparr>)) =
     Some (js ''Could not generate summary.'')"
proof -
  let ?s = "init\<lparr>summary := Some [1587]\<rparr>"
  have f: "summarizeUrduContent Throws = Inl RemoteFailure"
    using summarize_fails_on_remote_error_only [where r = Throws and e = RemoteFailure] by blast
  from summarize_fails_on_remote_error_only [where r = Throws and e = RemoteFailure and s = ?s] f
  have "errorMsg (fire (SummarizeSettled Throws) ?s) = Some (js ''Summarization failed.'')"
    and "summary (fire (SummarizeSettled Throws) ?s) = summary ?s"
    by blast+
  moreover
  from summarize_fails_on_remote_error_only [where r = "Returns (Some [])"]
  have p: "summarizeUrduContent (Returns (Some [])) = Inr (js ''Could not generate summary.'')"
    by blast
  from summarize_fails_on_remote_error_only
    [where r = "Returns (Some [])" and t = "js ''Could not generate summary.''" and s = ?s] p
  have "summary (fire (SummarizeSettled (Returns (Some []))) ?s) =
      Some (js ''Could not generate summary.'')"
    by blast
  ultimately show ?thesis
    using f by simp
qed

section \<open>The outcome of a transcription\<close>

text \<open>
  Claim C5. \<^verbatim>\<open>stopAndProcess\<close> and an accepted file both set the phase to Processing
  and put one call of \<^verbatim>\<open>transcribeAudioToUrdu\<close> in flight. When the call returns the
  text \<open>t\<close>, exactly one segment with text \<open>t\<close> is appended at the end of the store and
  the phase is Idle; when it fails, the error message is set, the segments and the summary
  are untouched, and the phase is Idle, not Error.
\<close>

theorem transcription_outcome_appends_or_reports:
  "(transcribeAudioToUrdu r = Inr t \<longrightarrow>
      segments (fire (TranscribeSettled r now1 now2) s) =
        segments s @ [\<lparr>seg_id = toString now1, seg_text = t, seg_timestamp = now2\<rparr>] \<and>
      appState (fire (TranscribeSettled r now1 now2) s) = IDLE) \<and>
   (transcribeAudioToUrdu r = Inl e \<longrightarrow>
      errorMsg (fire (TranscribeSettled r now1 now2) s) =
        Some (js ''Transcription failed. Please try again or check file format.'') \<and>
      segments (fire (TranscribeSettled r now1 now2) s) = segments s \<and>
      summary (fire (TranscribeSettled r now1 now2) s) = summary s \<and>
      appState (fire (TranscribeSettled r now1 now2) s) = IDLE) \<and>
   (current s \<noteq> None \<longrightarrow> appState (stopAndProcess s) = PROCESSING) \<and>
   enabled (TranscribeSettled r now1 now2) (stopAndProcess_then s) \<and>
   (blob_size f \<le> 500 * 1024 * 1024 \<longrightarrow>
      appState (handleFileUpload (Some f) s) = PROCESSING \<and>
      enabled (TranscribeSettled r now1 now2) (handleFileUpload (Some f) s))"
  by (auto simp: processAudio_settled_def Let_def stopAndProcess_def stopAndProcess_then_def
      processAudio_def handleFileUpload_def rec_stop_def update_recorder_def
      split: option.splits)

theorem transcription_outcome_appends_or_reports_witness:
  "segments
     (the (run [ClickStart, UserMediaFulfilled True False,
                DataAvailable 0 \<lparr>blob_bytes = [1], blob_type = []\<rparr>,
                DataAvailable 0 \<lparr>blob_bytes = [2], blob_type = []\<rparr>,
                ClickFinish, Stopped 0,
                TranscribeSettled (Returns (Some [1587, 1604, 1575, 1605])) 5 6] init)) =
     [\<lparr>seg_id = [53], seg_text = [1587, 1604, 1575, 1605], seg_timestamp = 6\<rparr>] \<and>
   appState
     (the (run [ClickStart, UserMediaFulfilled True False,
                DataAvailable 0 \<lparr>blob_bytes = [1], blob_type = []\<rparr>,
                DataAvailable 0 \<lparr>blob_bytes = [2], blob_type = []\<rparr>,
                ClickFinish, Stopped 0,
                TranscribeSettled (Returns (Some [1587, 1604, 1575, 1605])) 5 6] init)) = IDLE \<and>
   segments (fire (TranscribeSettled Throws 5 6) init) = [] \<and>
   appState (fire (TranscribeSettled Throws 5 6) init) = IDLE"
proof -
  let ?tr = "[ClickStart, UserMediaFulfilled True False,
              DataAvailable 0 \<lparr>blob_bytes = [1], blob_type = []\<rparr>,
              DataAvailable 0 \<lparr>blob_bytes = [2], blob_type = []\<rparr>, ClickFinish, Stopped 0]"
  let ?r = "Returns (Some [1587, 1604, 1575, 1605])"
  define p where "p = the (run ?tr init)"
  have ok: "transcribeAudioToUrdu ?r = Inr [1587, 1604, 1575, 1605]"
    by (simp add: transcribeAudioToUrdu_def trim_def isWhiteSpace_def)
  have bad: "transcribeAudioToUrdu Throws = Inl RemoteFailure"
    by (simp add: transcribeAudioToUrdu_def)
  have e: "the (run (?tr @ [TranscribeSettled ?r 5 6]) init) = fire (TranscribeSettled ?r 5 6) p"
    by (simp add: p_def eval_defs)
  have none: "segments p = []" "segments init = []"
    by (simp_all add: p_def eval_defs)
  from transcription_outcome_appends_or_reports
    [where r = ?r and ?now1.0 = 5 and ?now2.0 = 6 and s = p] ok
  have "segments (fire (TranscribeSettled ?r 5 6) p) =
      segments p @ [\<lparr>seg_id = toString 5, seg_text = [1587, 1604, 1575, 1605], seg_timestamp = 6\<rparr>]"
    and "appState (fire (TranscribeSettled ?r 5 6) p) = IDLE"
    by blast+
  moreover
  from transcription_outcome_appends_or_reports
    [where r = Throws and ?now1.0 = 5 and ?now2.0 = 6 and s = init and e = RemoteFailure] bad
  have "segments (fire (TranscribeSettled Throws 5 6) init) = segments init"
    and "appState (fire (TranscribeSettled Throws 5 6) init) = IDLE"
    by blast+
  ultimately show ?thesis
    using e none by (simp add: toString.simps)
qed


section \<open>File upload\<close>

text \<open>
  Claim C7. A file larger than 500 MiB (500 * 1024 * 1024 bytes) only sets the error
  message \<^verbatim>\<open>File too large. Max 500MB allowed.\<close>: the phase, the segments, the summary
  and the transcription calls are as before. A file of at most that size sets the phase
  to Processing and is passed as it is to the transcription operation.
\<close>

theorem oversized_upload_is_rejected:
  "(500 * 1024 * 1024 < blob_size f \<longrightarrow>
      handleFileUpload (Some f) s = s\<lparr>errorMsg := Some (js ''File too large. Max 500MB allowed.'')\<rparr> \<and>
      appState (handleFileUpload (Some f) s) = appState s \<and>
      segments (handleFileUpload (Some f) s) = segments s \<and>
      summary (handleFileUpload (Some f) s) = summary s \<and>
      transcribeCalls (handleFileUpload (Some f) s) = transcribeCalls s \<and>
      transcribePending (handleFileUpload (Some f) s) = transcribePending s) \<and>
   (blob_size f \<le> 500 * 1024 * 1024 \<longrightarrow>
      appState (handleFileUpload (Some f) s) = PROCESSING \<and>
      transcribeCalls (handleFileUpload (Some f) s) = transcribeCalls s @ [f] \<and>
      transcribePending (handleFileUpload (Some f) s) = Suc (transcribePending s) \<and>
      segments (handleFileUpload (Some f) s) = segments s \<and>
      summary (handleFileUpload (Some f) s) = summary s)"
  by (simp add: handleFileUpload_def processAudio_def)

theorem oversized_upload_is_rejected_witness:
  "appState
     (handleFileUpload (Some \<lparr>blob_bytes = replicate (600 * 1024 * 1024) 0, blob_type = []\<rparr>) init) =
     IDLE \<and>
   transcribeCalls
     (handleFileUpload (Some \<lparr>blob_bytes = replicate (600 * 1024 * 1024) 0, blob_type = []\<rparr>) init) =
     [] \<and>
   errorMsg
     (handleFileUpload (Some \<lparr>blob_bytes = replicate (600 * 1024 * 1024) 0, blob_type = []\<rparr>) init) =
     Some (js ''File too large. Max 500MB allowed.'') \<and>
   appState
     (handleFileUpload (Some \<lparr>blob_bytes = replicate (500 * 1024 * 1024) 0, blob_type = []\<rparr>) init) =
     PROCESSING"
proof -
  define big :: Blob where "big = \<lparr>blob_bytes = replicate (600 * 1024 * 1024) 0, blob_type = []\<rparr>"
  define lim :: Blob where "lim = \<lparr>blob_bytes = replicate (500 * 1024 * 1024) 0, blob_type = []\<rparr>"
  have b: "500 * 1024 * 1024 < blob_size big"
    by (simp add: big_def blob_size_def)
  have l: "blob_size lim \<le> 500 * 1024 * 1024"
    by (simp add: lim_def blob_size_def)
  have i: "appState init = IDLE" "transcribeCalls init = []"
    by (simp_all add: init_def)
  from oversized_upload_is_rejected [of big init] b
  have "handleFileUpload (Some big) init =
      init\<lparr>errorMsg := Some (js ''File too large. Max 500MB allowed.'')\<rparr>"
    and "appState (handleFileUpload (Some big) init) = appState init"
    and "transcribeCalls (handleFileUpload (Some big) init) = transcribeCalls init"
    by blast+
  moreover from oversized_upload_is_rejected [of lim init] l
  have "appState (handleFileUpload (Some lim) init) = PROCESSING"
    by blast
  ultimately show ?thesis
    using i unfolding big_def lim_def by simp
qed

section \<open>The transcript store\<close>

lemma fromDigits_snoc: "fromDigits (ds @ [d]) = fromDigits ds * 10 + (d - 48)"
  by (simp add: fromDigits_def)

lemma fromDigits_toString: "fromDigits (toString n) = n"
proof (induction n rule: toString.induct)
  case (1 n)
  show ?case
  proof (cases "n < 10")
    case True
    then show ?thesis
      by (simp add: toString.simps [of n] fromDigits_def)
  next
    case False
    with "1.IH" have "fromDigits (toString (n div 10)) = n div 10"
      by simp
    with False show ?thesis
      by (simp add: toString.simps [of n] fromDigits_snoc)
  qed
qed

lemma toString_inject: "toString a = toString b \<Longrightarrow> a = b"
  by (metis fromDigits_toString)

lemma filter_distinct_length:
  "distinct (map f xs) \<Longrightarrow> length xs \<le> Suc (length (filter (\<lambda>x. f x \<noteq> i) xs))"
proof (induction xs)
  case Nil
  then show ?case by simp
next
  case (Cons x xs)
  show ?case
  proof (cases "f x = i")
    case True
    with Cons.prems have "\<forall>y\<in>set xs. f y \<noteq> i"
      by (auto simp: image_iff)
    then have "filter (\<lambda>x. f x \<noteq> i) xs = xs"
      by (simp add: filter_id_conv)
    with True show ?thesis
      by simp
  next
    case False
    with Cons show ?thesis
      by simp
  qed
qed

text \<open>
  Claim C8, as stated, fails. A file is chosen while the acquisition of a Start is in
  flight, the recording that follows is finished, and both transcriptions complete at the
  clock reading 5: the store then holds two segments with the id \<^verbatim>\<open>5\<close>, and deleting that
  id removes both.
\<close>

theorem same_clock_reading_gives_equal_ids:
  "run [ClickStart, FileChosen (Some \<lparr>blob_bytes = [7], blob_type = js ''audio/mpeg''\<rparr>),
        UserMediaFulfilled True False, ClickFinish,
        DataAvailable 0 \<lparr>blob_bytes = [8], blob_type = []\<rparr>, Stopped 0,
        TranscribeSettled (Returns (Some [1587])) 5 5,
        TranscribeSettled (Returns (Some [1604])) 5 5, ClickDelete (toString 5)] init \<noteq> None \<and>
   map seg_id
     (segments
        (the (run [ClickStart, FileChosen (Some \<lparr>blob_bytes = [7], blob_type = js ''audio/mpeg''\<rparr>),
                   UserMediaFulfilled True False, ClickFinish,
                   DataAvailable 0 \<lparr>blob_bytes = [8], blob_type = []\<rparr>, Stopped 0,
                   TranscribeSettled (Returns (Some [1587])) 5 5,
                   TranscribeSettled (Returns (Some [1604])) 5 5] init))) =
     [toString 5, toString 5] \<and>
   segments
     (the (run [ClickStart, FileChosen (Some \<lparr>blob_bytes = [7], blob_type = js ''audio/mpeg''\<rparr>),
                UserMediaFulfilled True False, ClickFinish,
                DataAvailable 0 \<lparr>blob_bytes = [8], blob_type = []\<rparr>, Stopped 0,
                TranscribeSettled (Returns (Some [1587])) 5 5,
                TranscribeSettled (Returns (Some [1604])) 5 5, ClickDelete (toString 5)] init)) = []"
  by (simp add: eval_defs toString.simps)

text \<open>
  Claim C8, amended. \<^verbatim>\<open>handleDeleteSegment\<close> removes every segment whose id is the
  given one and keeps the others in order; if no segment has the id the state is
  unchanged; if the stored ids are pairwise distinct at most one segment is removed. The
  id of an appended segment is the decimal rendering of the clock reading at the
  completion of its transcription: the stored ids stay pairwise distinct when no stored
  segment carries that rendering, and different readings have different renderings.
\<close>

theorem delete_removes_every_match:
  "segments (handleDeleteSegment i s) = filter (\<lambda>x. seg_id x \<noteq> i) (segments s) \<and>
   (i \<notin> set (map seg_id (segments s)) \<longrightarrow> handleDeleteSegment i s = s) \<and>
   (distinct (map seg_id (segments s)) \<longrightarrow>
      length (segments s) \<le> Suc (length (segments (handleDeleteSegment i s)))) \<and>
   segments (processAudio_settled (Inr t) now1 now2 s) =
     segments s @ [\<lparr>seg_id = toString now1, seg_text = t, seg_timestamp = now2\<rparr>] \<and>
   (distinct (map seg_id (segments s)) \<and> toString now1 \<notin> set (map seg_id (segments s)) \<longrightarrow>
      distinct (map seg_id (segments (processAudio_settled (Inr t) now1 now2 s)))) \<and>
   (toString a = toString b \<longrightarrow> a = b)"
proof -
  have "handleDeleteSegment i s = s" if "i \<notin> set (map seg_id (segments s))"
  proof -
    from that have "filter (\<lambda>x. seg_id x \<noteq> i) (segments s) = segments s"
      by (auto simp: filter_id_conv)
    then show ?thesis
      by (simp add: handleDeleteSegment_def)
  qed
  moreover have "length (segments s) \<le> Suc (length (segments (handleDeleteSegment i s)))"
    if "distinct (map seg_id (segments s))"
    using filter_distinct_length [OF that] by (simp add: handleDeleteSegment_def)
  moreover have "segments (processAudio_settled (Inr t) now1 now2 s) =
      segments s @ [\<lparr>seg_id = toString now1, seg_text = t, seg_timestamp = now2\<rparr>]"
    by (simp add: processAudio_settled_def Let_def)
  moreover have "distinct (map seg_id (segments (processAudio_settled (Inr t) now1 now2 s)))"
    if "distinct (map seg_id (segments s)) \<and> toString now1 \<notin> set (map seg_id (segments s))"
    using that by (simp add: processAudio_settled_def Let_def)
  moreover have "segments (handleDeleteSegment i s) = filter (\<lambda>x. seg_id x \<noteq> i) (segments s)"
    by (simp add: handleDeleteSegment_def)
  ultimately show ?thesis
    using toString_inject [of a b] by blast
qed


theorem delete_removes_every_match_witness:
  "segments
     (handleDeleteSegment [53]
        (init\<lparr>segments := [\<lparr>seg_id = [53], seg_text = [1587], seg_timestamp = 5\<rparr>,
                            \<lparr>seg_id = [54], seg_text = [1604], seg_timestamp = 6\<rparr>]\<rparr>)) =
     [\<lparr>seg_id = [54], seg_text = [1604], seg_timestamp = 6\<rparr>] \<and>
   handleDeleteSegment [55]
     (init\<lparr>segments := [\<lparr>seg_id = [53], seg_text = [1587], seg_timestamp = 5\<rparr>,
                         \<lparr>seg_id = [54], seg_text = [1604], seg_timestamp = 6\<rparr>]\<rparr>) =
     init\<lparr>segments := [\<lparr>seg_id = [53], seg_text = [1587], seg_timestamp = 5\<rparr>,
                        \<lparr>seg_id = [54], seg_text = [1604], seg_timestamp = 6\<rparr>]\<rparr> \<and>
   distinct
     (map seg_id
        (segments
           (processAudio_settled (Inr [1575]) 7 7
              (init\<lparr>segments := [\<lparr>seg_id = [53], seg_text = [1587], seg_timestamp = 5\<rparr>,
                                  \<lparr>seg_id = [54], seg_text = [1604], seg_timestamp = 6\<rparr>]\<rparr>))))"
proof -
  define st where "st = init\<lparr>segments := [\<lparr>seg_id = [53], seg_text = [1587], seg_timestamp = 5\<rparr>,
    \<lparr>seg_id = [54], seg_text = [1604], seg_timestamp = 6\<rparr>]\<rparr>"
  have ids: "map seg_id (segments st) = [toString 5, toString 6]"
    by (simp add: st_def toString.simps)
  have absent: "[55] \<notin> set (map seg_id (segments st))"
    by (simp add: ids toString.simps)
  have fresh: "distinct (map seg_id (segments st)) \<and> toString 7 \<notin> set (map seg_id (segments st))"
    by (simp add: ids toString.simps)
  note inst = delete_removes_every_match [where s = st and ?now1.0 = 7 and ?now2.0 = 7 and t = "[1575]"]
  from inst [where i = "[53]"]
  have "segments (handleDeleteSegment [53] st) = filter (\<lambda>x. seg_id x \<noteq> [53]) (segments st)"
    by blast
  then have 1: "segments (handleDeleteSegment [53] st) =
      [\<lparr>seg_id = [54], seg_text = [1604], seg_timestamp = 6\<rparr>]"
    by (simp add: st_def)
  from inst [where i = "[55]"] absent have 2: "handleDeleteSegment [55] st = st"
    by blast
  from inst [where i = "[55]"] fresh
  have 3: "distinct (map seg_id (segments (processAudio_settled (Inr [1575]) 7 7 st)))"
    by blast
  from 1 2 3 show ?thesis
    unfolding st_def by blast
qed

section \<open>The chat\<close>

text \<open>
  Claim C9. In a reachable state, asking a non-blank question while no answer is
  outstanding appends one user message with the question; when the call settles, one
  assistant message is appended after it, whose text is the answer or, when the call
  failed, the apology text; the error message and the phase are not touched. While an
  answer is outstanding a submission changes nothing, whatever has been typed, and at most
  one question is outstanding.
\<close>

theorem ask_appends_question_then_answer:
  assumes "reachable s"
  shows "(trim (chatInput s) \<noteq> [] \<and> \<not> isChatLoading s \<longrightarrow>
      chatMessages (handleSendMessage now1 now2 s) =
        chatMessages s @
          [\<lparr>msg_id = toString now1, msg_role = user, msg_text = chatInput s,
            msg_timestamp = now2\<rparr>] \<and>
      isChatLoading (handleSendMessage now1 now2 s) \<and>
      chatPending (handleSendMessage now1 now2 s) = 1 \<and>
      chatMessages
        (handleSendMessage_settled (chatWithTranscript r) now3 now4
           (handleSendMessage now1 now2 s)) =
        chatMessages s @
          [\<lparr>msg_id = toString now1, msg_role = user, msg_text = chatInput s,
            msg_timestamp = now2\<rparr>,
           \<lparr>msg_id = toString (now3 + 1), msg_role = ai,
            msg_text = (case chatWithTranscript r of
                          Inr t \<Rightarrow> t
                        | Inl e \<Rightarrow> js ''Sorry, I couldn't process that question right now.''),
            msg_timestamp = now4\<rparr>] \<and>
      \<not> isChatLoading
          (handleSendMessage_settled (chatWithTranscript r) now3 now4
             (handleSendMessage now1 now2 s)) \<and>
      chatPending
        (handleSendMessage_settled (chatWithTranscript r) now3 now4
           (handleSendMessage now1 now2 s)) = 0 \<and>
      errorMsg
        (handleSendMessage_settled (chatWithTranscript r) now3 now4
           (handleSendMessage now1 now2 s)) = errorMsg s \<and>
      appState
        (handleSendMessage_settled (chatWithTranscript r) now3 now4
           (handleSendMessage now1 now2 s)) = appState s) \<and>
   (isChatLoading s \<longrightarrow>
      handleSendMessage now1 now2 (s\<lparr>chatInput := q\<rparr>) = s\<lparr>chatInput := q\<rparr>) \<and>
   (trim (chatInput s) = [] \<longrightarrow> handleSendMessage now1 now2 s = s) \<and>
   chatPending s \<le> 1 \<and> (isChatLoading s \<longleftrightarrow> chatPending s = 1)"
  using reachable_chat [OF assms]
  by (simp add: handleSendMessage_def handleSendMessage_settled_def)


theorem ask_appends_question_then_answer_witness:
  "map msg_role
     (chatMessages
        (the (run [FileChosen (Some \<lparr>blob_bytes = [7], blob_type = js ''audio/mpeg''\<rparr>),
                   TranscribeSettled (Returns (Some [1587, 1604, 1575, 1605])) 5 5, OpenChat,
                   ChatInputChanged (js ''why?''), SubmitChat 8 8, ChatSettled Throws 9 9] init))) =
     [user, ai] \<and>
   map msg_text
     (chatMessages
        (the (run [FileChosen (Some \<lparr>blob_bytes = [7], blob_type = js ''audio/mpeg''\<rparr>),
                   TranscribeSettled (Returns (Some [1587, 1604, 1575, 1605])) 5 5, OpenChat,
                   ChatInputChanged (js ''why?''), SubmitChat 8 8, ChatSettled Throws 9 9] init))) =
     [js ''why?'', js ''Sorry, I couldn't process that question right now.''] \<and>
   map msg_text
     (chatMessages
        (the (run [FileChosen (Some \<lparr>blob_bytes = [7], blob_type = js ''audio/mpeg''\<rparr>),
                   TranscribeSettled (Returns (Some [1587, 1604, 1575, 1605])) 5 5, OpenChat,
                   ChatInputChanged (js ''why?''), SubmitChat 8 8,
                   ChatInputChanged (js ''and?''), SubmitChat 9 9] init))) =
     [js ''why?'']"
proof -
  let ?tr = "[FileChosen (Some \<lparr>blob_bytes = [7], blob_type = js ''audio/mpeg''\<rparr>),
              TranscribeSettled (Returns (Some [1587, 1604, 1575, 1605])) 5 5, OpenChat,
              ChatInputChanged (js ''why?'')]"
  define a where "a = the (run ?tr init)"
  define b where "b = the (run (?tr @ [SubmitChat 8 8]) init)"
  have "run ?tr init \<noteq> None"
    by (simp add: eval_defs)
  then have "run ?tr init = Some a"
    by (auto simp: a_def)
  then have ra: "reachable a"
    by (rule reachable_run)
  have "run (?tr @ [SubmitChat 8 8]) init \<noteq> None"
    by (simp add: eval_defs)
  then have "run (?tr @ [SubmitChat 8 8]) init = Some b"
    by (auto simp: b_def)
  then have rb: "reachable b"
    by (rule reachable_run)
  have ha: "trim (chatInput a) \<noteq> [] \<and> \<not> isChatLoading a"
    and ma: "chatMessages a = []" and ia: "chatInput a = js ''why?''"
    by (simp_all add: a_def eval_defs)
  have hb: "isChatLoading b" and mb: "map msg_text (chatMessages b) = [js ''why?'']"
    by (simp_all add: b_def eval_defs)
  have fail: "chatWithTranscript Throws = Inl RemoteFailure"
    by (simp add: chatWithTranscript_def)
  have e1: "the (run (?tr @ [SubmitChat 8 8, ChatSettled Throws 9 9]) init) =
      handleSendMessage_settled (chatWithTranscript Throws) 9 9 (handleSendMessage 8 8 a)"
    by (simp add: a_def eval_defs)
  have e2: "the (run (?tr @ [SubmitChat 8 8, ChatInputChanged (js ''and?''), SubmitChat 9 9]) init) =
      handleSendMessage 9 9 (b\<lparr>chatInput := js ''and?''\<rparr>)"
    by (simp add: b_def eval_defs)
  from ask_appends_question_then_answer
    [OF ra, where ?now1.0 = 8 and ?now2.0 = 8 and ?now3.0 = 9 and ?now4.0 = 9 and r = Throws] ha
  have "chatMessages
      (handleSendMessage_settled (chatWithTranscript Throws) 9 9 (handleSendMessage 8 8 a)) =
      chatMessages a @
        [\<lparr>msg_id = toString 8, msg_role = user, msg_text = chatInput a, msg_timestamp = 8\<rparr>,
         \<lparr>msg_id = toString (9 + 1), msg_role = ai,
          msg_text = (case chatWithTranscript Throws of
                        Inr t \<Rightarrow> t
                      | Inl e \<Rightarrow> js ''Sorry, I couldn't process that question right now.''),
          msg_timestamp = 9\<rparr>]"
    by blast
  with ma ia fail e1
  have 1: "map msg_role (chatMessages (the (run (?tr @ [SubmitChat 8 8, ChatSettled Throws 9 9]) init))) =
      [user, ai]"
    and 2: "map msg_text (chatMessages (the (run (?tr @ [SubmitChat 8 8, ChatSettled Throws 9 9]) init))) =
      [js ''why?'', js ''Sorry, I couldn't process that question right now.'']"
    by simp_all
  from ask_appends_question_then_answer [OF rb, where ?now1.0 = 9 and ?now2.0 = 9 and q = "js ''and?''"] hb
  have "handleSendMessage 9 9 (b\<lparr>chatInput := js ''and?''\<rparr>) = b\<lparr>chatInput := js ''and?''\<rparr>"
    by blast
  with e2 mb
  have 3: "map msg_text (chatMessages
      (the (run (?tr @ [SubmitChat 8 8, ChatInputChanged (js ''and?''), SubmitChat 9 9]) init))) =
      [js ''why?'']"
    by simp
  from 1 2 3 show ?thesis
    by simp
qed


end
